theory Spec2Isabelle
  imports Main "HOL-Library.Word"
begin

section \<open>ZeroGravityJudge: escrow with M-of-N signed arbitration receipts\<close>

text \<open>
  A shallow embedding of \<^verbatim>\<open>smart-contracts/src/ZeroGravityJudge.sol\<close>.
  Solidity's fixed-width unsigned integers are words; an \<^verbatim>\<open>address\<close> is a
  160-bit word. Arithmetic of Solidity 0.8 is checked: an overflow reverts with a panic,
  which is the error \<open>Panic\<close> here. A reverted call leaves the storage as it was; a
  function of the contract therefore returns \<open>Inl e\<close> (the revert) or \<open>Inr s'\<close>
  (the storage after the call).
\<close>

subsection \<open>Types\<close>

type_synonym address = "160 word"
type_synonym uint256 = "256 word"
type_synonym uint96 = "96 word"
type_synonym uint16 = "16 word"
type_synonym uint8 = "8 word"
type_synonym bytes32 = "256 word"
type_synonym bytes = "8 word list"

text \<open>
  The nine custom errors of the contract, followed by the three reverts that come from
  outside it: the arithmetic panic, a revert inside \<^verbatim>\<open>ECDSA.recover\<close>, and a
  revert inside \<^verbatim>\<open>SafeERC20\<close>.
\<close>

datatype error =
    NotParty
  | InvalidParams
  | AlreadyFunded
  | NotFunded
  | AlreadyResolved
  | NotArbitrator
  | DuplicateReceipt
  | ConfidenceTooLow
  | UnknownWinner
  | Panic
  | ECDSAInvalidSignature
  | SafeERC20FailedOperation

datatype Side = A | B

record ArbitrationReceipt =
  wagerId :: uint256
  winner :: address
  confidenceBps :: uint96
  traceURI :: string
  timestamp :: uint256

record ArbitrationProfile =
  confidenceThresholdBps :: uint16
  m :: uint8
  n :: uint8
  arbitrators :: "address list"
  isArbitrator :: "address \<Rightarrow> bool"

record Wager =
  partyA :: address
  partyB :: address
  token :: address
  stakeARequired :: uint256
  stakeBRequired :: uint256
  stakeA :: uint256
  stakeB :: uint256
  claim :: string
  sources :: string
  evidenceRoot :: bytes32
  evidenceURI :: string
  fundedA :: bool
  fundedB :: bool
  resolved :: bool
  winner :: address
  winningConfidenceBps :: uint96
  profile :: ArbitrationProfile
  arbitratorHasVoted :: "address \<Rightarrow> bool"
  votesForA :: uint256
  votesForB :: uint256

datatype event =
    WagerCreated uint256 address address address uint256 uint256 uint16 uint8 uint8
  | EscrowFunded uint256 address uint256
  | EvidenceAttached uint256 bytes32 string
  | ReceiptAccepted uint256 address address uint96 string
  | Resolved uint256 address uint96
  | Payout uint256 address uint256

text \<open>
  The two calls the contract makes into the token: \<open>SafeTransferFrom token from to amount\<close>
  and \<open>SafeTransfer token to amount\<close>.
\<close>

datatype ext_call =
    SafeTransferFrom address address address uint256
  | SafeTransfer address address uint256

text \<open>
  The storage of the contract (\<open>nextWagerId\<close>, \<open>wagers\<close>), its own address
  (\<open>self\<close>, Solidity's \<^verbatim>\<open>address(this)\<close>), the log of emitted events, and the
  token calls that went through, oldest first.
\<close>

record state =
  nextWagerId :: uint256
  wagers :: "uint256 \<Rightarrow> Wager"
  self :: address
  events :: "event list"
  calls :: "ext_call list"

text \<open>
  The token is foreign code. A call into it is a function from the state of the contract
  at the moment of the call to a revert or to the state in which the call returns, so a
  token that calls back into the contract is covered.
\<close>

type_synonym ext = "ext_call \<Rightarrow> state \<Rightarrow> error + state"

text \<open>
  \<^verbatim>\<open>ECDSA.recover(_hashReceiptTyped(r), signature)\<close>: a function of the receipt and the
  signature (the EIP-712 domain is fixed for a deployed contract). \<open>None\<close> is the revert of
  the library on a malformed signature.
\<close>

type_synonym recover = "ArbitrationReceipt \<Rightarrow> bytes \<Rightarrow> address option"

subsection \<open>Helpers\<close>

definition checked_add :: "uint256 \<Rightarrow> uint256 \<Rightarrow> error + uint256" where
  "checked_add x y = (if unat x + unat y < 2 ^ 256 then Inr (x + y) else Inl Panic)"

definition emit :: "event \<Rightarrow> state \<Rightarrow> state" where
  "emit e s = s\<lparr>events := events s @ [e]\<rparr>"

definition set_wager :: "uint256 \<Rightarrow> Wager \<Rightarrow> state \<Rightarrow> state" where
  "set_wager i w s = s\<lparr>wagers := (wagers s)(i := w)\<rparr>"

text \<open>A storage slot never written: every field is zero.\<close>

definition zero_profile :: ArbitrationProfile where
  "zero_profile = \<lparr>confidenceThresholdBps = 0, m = 0, n = 0, arbitrators = [],
     isArbitrator = (\<lambda>_. False)\<rparr>"

definition zero_wager :: Wager where
  "zero_wager = \<lparr>partyA = 0, partyB = 0, token = 0, stakeARequired = 0, stakeBRequired = 0,
     stakeA = 0, stakeB = 0, claim = [], sources = [], evidenceRoot = 0, evidenceURI = [],
     fundedA = False, fundedB = False, resolved = False, winner = 0,
     winningConfidenceBps = 0, profile = zero_profile, arbitratorHasVoted = (\<lambda>_. False),
     votesForA = 0, votesForB = 0\<rparr>"

definition init_state :: "address \<Rightarrow> state" where
  "init_state a = \<lparr>nextWagerId = 0, wagers = (\<lambda>_. zero_wager), self = a, events = [],
     calls = []\<rparr>"

text \<open>The loop of \<^verbatim>\<open>createWager\<close> that fills the membership mapping.\<close>

fun mark_arbitrators :: "address list \<Rightarrow> (address \<Rightarrow> bool) \<Rightarrow> (address \<Rightarrow> bool)" where
  "mark_arbitrators [] f = f"
| "mark_arbitrators (a # as) f = mark_arbitrators as (f(a := True))"

subsection \<open>The functions of the contract\<close>

definition createWager ::
  "address \<Rightarrow> address \<Rightarrow> address \<Rightarrow> uint256 \<Rightarrow> uint256 \<Rightarrow> string \<Rightarrow> string \<Rightarrow> uint16 \<Rightarrow> uint8
    \<Rightarrow> address list \<Rightarrow> state \<Rightarrow> error + (uint256 \<times> state)" where
  "createWager sender pB tok sAR sBR clm srcs thr mm arbs s =
    (if pB = 0 \<or> tok = 0 then Inl InvalidParams
     else if sAR = 0 \<or> sBR = 0 then Inl InvalidParams
     else if thr = 0 \<or> thr > 10000 then Inl InvalidParams
     else if length arbs = 0 then Inl InvalidParams
     else if mm = 0 \<or> unat mm > length arbs then Inl InvalidParams
     else (case checked_add (nextWagerId s) 1 of
        Inl e \<Rightarrow> Inl e
      | Inr i \<Rightarrow>
         let s1 = s\<lparr>nextWagerId := i\<rparr>;
             w = wagers s1 i;
             p = (profile w)\<lparr>confidenceThresholdBps := thr, m := mm,
                   n := of_nat (length arbs), arbitrators := arbs,
                   isArbitrator := mark_arbitrators arbs (isArbitrator (profile w))\<rparr>;
             w1 = w\<lparr>partyA := sender, partyB := pB, token := tok,
                   stakeARequired := sAR, stakeBRequired := sBR,
                   claim := clm, sources := srcs, profile := p\<rparr>
         in Inr (i, emit (WagerCreated i sender pB tok sAR sBR thr mm (of_nat (length arbs)))
                      (set_wager i w1 s1))))"

definition fundEscrow :: "ext \<Rightarrow> address \<Rightarrow> uint256 \<Rightarrow> Side \<Rightarrow> state \<Rightarrow> error + state" where
  "fundEscrow tk sender i side s =
    (let w = wagers s i in
     if partyA w = 0 then Inl InvalidParams
     else if resolved w then Inl AlreadyResolved
     else (case side of
        A \<Rightarrow>
          if sender \<noteq> partyA w then Inl NotParty
          else if fundedA w then Inl AlreadyFunded
          else (case tk (SafeTransferFrom (token w) sender (self s) (stakeARequired w)) s of
             Inl e \<Rightarrow> Inl e
           | Inr s1 \<Rightarrow>
              let w1 = (wagers s1 i)\<lparr>fundedA := True\<rparr> in
              (case checked_add (stakeA w1) (stakeARequired w1) of
                 Inl e \<Rightarrow> Inl e
               | Inr v \<Rightarrow> Inr (emit (EscrowFunded i sender (stakeARequired w1))
                                 (set_wager i (w1\<lparr>stakeA := v\<rparr>) s1))))
      | B \<Rightarrow>
          if sender \<noteq> partyB w then Inl NotParty
          else if fundedB w then Inl AlreadyFunded
          else (case tk (SafeTransferFrom (token w) sender (self s) (stakeBRequired w)) s of
             Inl e \<Rightarrow> Inl e
           | Inr s1 \<Rightarrow>
              let w1 = (wagers s1 i)\<lparr>fundedB := True\<rparr> in
              (case checked_add (stakeB w1) (stakeBRequired w1) of
                 Inl e \<Rightarrow> Inl e
               | Inr v \<Rightarrow> Inr (emit (EscrowFunded i sender (stakeBRequired w1))
                                 (set_wager i (w1\<lparr>stakeB := v\<rparr>) s1))))))"

definition attachEvidence :: "address \<Rightarrow> uint256 \<Rightarrow> bytes32 \<Rightarrow> string \<Rightarrow> state \<Rightarrow> error + state" where
  "attachEvidence sender i root uri s =
    (let w = wagers s i in
     if sender \<noteq> partyA w \<and> sender \<noteq> partyB w then Inl NotParty
     else Inr (emit (EvidenceAttached i root uri)
                 (set_wager i (w\<lparr>evidenceRoot := root, evidenceURI := uri\<rparr>) s)))"

text \<open>
  \<^verbatim>\<open>_finalize\<close>. The storage is written (resolved, winner, confidence, then both
  balances zeroed) before the token is called; the state handed to the token is \<open>s2\<close>.
\<close>

definition finalize :: "ext \<Rightarrow> uint256 \<Rightarrow> address \<Rightarrow> uint96 \<Rightarrow> state \<Rightarrow> error + state" where
  "finalize tk i win conf s =
    (let w = wagers s i in
     if resolved w then Inl AlreadyResolved
     else
       let w1 = w\<lparr>resolved := True, winner := win, winningConfidenceBps := conf\<rparr>;
           s1 = emit (Resolved i win conf) (set_wager i w1 s)
       in (case checked_add (stakeA w1) (stakeB w1) of
          Inl e \<Rightarrow> Inl e
        | Inr pot \<Rightarrow>
           let s2 = set_wager i (w1\<lparr>stakeA := 0, stakeB := 0\<rparr>) s1 in
           (case tk (SafeTransfer (token w1) win pot) s2 of
              Inl e \<Rightarrow> Inl e
            | Inr s3 \<Rightarrow> Inr (emit (Payout i win pot) s3))))"

definition submitReceipt :: "recover \<Rightarrow> ext \<Rightarrow> ArbitrationReceipt \<Rightarrow> bytes \<Rightarrow> state \<Rightarrow> error + state" where
  "submitReceipt rcv tk r sg s =
    (let i = wagerId r; w = wagers s i in
     if partyA w = 0 then Inl InvalidParams
     else if \<not> fundedA w \<or> \<not> fundedB w then Inl NotFunded
     else if resolved w then Inl AlreadyResolved
     else (case rcv r sg of
        None \<Rightarrow> Inl ECDSAInvalidSignature
      | Some signer \<Rightarrow>
         if \<not> isArbitrator (profile w) signer then Inl NotArbitrator
         else if arbitratorHasVoted w signer then Inl DuplicateReceipt
         else if unat (confidenceBps r) < unat (confidenceThresholdBps (profile w))
           then Inl ConfidenceTooLow
         else if ArbitrationReceipt.winner r \<noteq> partyA w \<and> ArbitrationReceipt.winner r \<noteq> partyB w
           then Inl UnknownWinner
         else
           let w1 = w\<lparr>arbitratorHasVoted := (arbitratorHasVoted w)(signer := True)\<rparr> in
           (case (if ArbitrationReceipt.winner r = partyA w1
                  then map_sum id (\<lambda>v. w1\<lparr>votesForA := v\<rparr>) (checked_add (votesForA w1) 1)
                  else map_sum id (\<lambda>v. w1\<lparr>votesForB := v\<rparr>) (checked_add (votesForB w1) 1)) of
              Inl e \<Rightarrow> Inl e
            | Inr w2 \<Rightarrow>
               let s1 = emit (ReceiptAccepted i signer (ArbitrationReceipt.winner r)
                                (confidenceBps r) (traceURI r))
                          (set_wager i w2 s)
               in if unat (votesForA w2) \<ge> unat (m (profile w2))
                    then finalize tk i (partyA w2) (confidenceBps r) s1
                  else if unat (votesForB w2) \<ge> unat (m (profile w2))
                    then finalize tk i (partyB w2) (confidenceBps r) s1
                  else Inr s1)))"

subsection \<open>Transactions\<close>

text \<open>
  A token that does not call back: the call either reverts or returns, and a call that
  returned is appended to \<open>calls\<close>.
\<close>

definition erc20 :: "bool \<Rightarrow> ext" where
  "erc20 ok c s = (if ok then Inr (s\<lparr>calls := calls s @ [c]\<rparr>) else Inl SafeERC20FailedOperation)"

text \<open>
  An external call to the contract, with \<^verbatim>\<open>msg.sender\<close> first where the function reads
  it. The boolean of \<open>FundEscrow\<close> and \<open>SubmitReceipt\<close> says whether the token honours
  the transfer the call asks for.
\<close>

datatype tx =
    CreateWager address address address uint256 uint256 string string uint16 uint8 "address list"
  | FundEscrow address uint256 Side bool
  | AttachEvidence address uint256 bytes32 string
  | SubmitReceipt ArbitrationReceipt bytes bool

fun run :: "recover \<Rightarrow> tx \<Rightarrow> state \<Rightarrow> error + state" where
  "run rcv (CreateWager sender pB tok sAR sBR clm srcs thr mm arbs) s =
     map_sum id snd (createWager sender pB tok sAR sBR clm srcs thr mm arbs s)"
| "run rcv (FundEscrow sender i side ok) s = fundEscrow (erc20 ok) sender i side s"
| "run rcv (AttachEvidence sender i root uri) s = attachEvidence sender i root uri s"
| "run rcv (SubmitReceipt r sg ok) s = submitReceipt rcv (erc20 ok) r sg s"

text \<open>A reverted transaction leaves the state as it was.\<close>

definition exec :: "recover \<Rightarrow> tx \<Rightarrow> state \<Rightarrow> state" where
  "exec rcv t s = (case run rcv t s of Inl _ \<Rightarrow> s | Inr s' \<Rightarrow> s')"

fun execs :: "recover \<Rightarrow> tx list \<Rightarrow> state \<Rightarrow> state" where
  "execs rcv [] s = s"
| "execs rcv (t # ts) s = execs rcv ts (exec rcv t s)"

subsection \<open>Reachable states\<close>

text \<open>
  Ids are handed out from 1 upwards by \<^verbatim>\<open>++nextWagerId\<close>; a wager has been created
  under \<open>i\<close> when \<open>i\<close> is one of the ids handed out so far.
\<close>

definition created :: "state \<Rightarrow> uint256 \<Rightarrow> bool" where
  "created s i \<longleftrightarrow> i \<noteq> 0 \<and> unat i \<le> unat (nextWagerId s)"

text \<open>The number of \<^verbatim>\<open>Resolved\<close> events for a wager: how often \<^verbatim>\<open>_finalize\<close> ran for it.\<close>

fun is_Resolved :: "uint256 \<Rightarrow> event \<Rightarrow> bool" where
  "is_Resolved i (Resolved j _ _) = (i = j)"
| "is_Resolved i _ = False"

definition finalize_count :: "state \<Rightarrow> uint256 \<Rightarrow> nat" where
  "finalize_count s i = length (filter (is_Resolved i) (events s))"

text \<open>What holds of a storage slot no wager was created in, and of a created wager.\<close>

definition fresh :: "Wager \<Rightarrow> bool" where
  "fresh w \<longleftrightarrow>
     partyA w = 0 \<and> partyB w = 0 \<and> stakeA w = 0 \<and> stakeB w = 0 \<and>
     \<not> fundedA w \<and> \<not> fundedB w \<and> \<not> resolved w \<and> votesForA w = 0 \<and> votesForB w = 0 \<and>
     (\<forall>a. \<not> arbitratorHasVoted w a) \<and> (\<forall>a. \<not> isArbitrator (profile w) a)"

definition sound :: "Wager \<Rightarrow> bool" where
  "sound w \<longleftrightarrow>
     m (profile w) \<noteq> 0 \<and> unat (m (profile w)) \<le> length (arbitrators (profile w)) \<and>
     n (profile w) = of_nat (length (arbitrators (profile w))) \<and>
     confidenceThresholdBps (profile w) \<noteq> 0 \<and>
     unat (confidenceThresholdBps (profile w)) \<le> 10000 \<and>
     partyB w \<noteq> 0 \<and> token w \<noteq> 0 \<and> stakeARequired w \<noteq> 0 \<and> stakeBRequired w \<noteq> 0 \<and>
     (\<forall>a. isArbitrator (profile w) a \<longleftrightarrow> a \<in> set (arbitrators (profile w))) \<and>
     (\<forall>a. arbitratorHasVoted w a \<longrightarrow>
          isArbitrator (profile w) a \<and> fundedA w \<and> fundedB w \<and> partyA w \<noteq> 0) \<and>
     unat (votesForA w) + unat (votesForB w) = card {a. arbitratorHasVoted w a} \<and>
     (resolved w \<longleftrightarrow> unat (m (profile w)) \<le> unat (votesForA w)
                     \<or> unat (m (profile w)) \<le> unat (votesForB w)) \<and>
     (if resolved w
      then stakeA w = 0 \<and> stakeB w = 0 \<and> fundedA w \<and> fundedB w \<and>
           (winner w = partyA w \<or> winner w = partyB w) \<and>
           unat (confidenceThresholdBps (profile w)) \<le> unat (winningConfidenceBps w)
      else stakeA w = (if fundedA w then stakeARequired w else 0) \<and>
           stakeB w = (if fundedB w then stakeBRequired w else 0))"

definition inv :: "state \<Rightarrow> bool" where
  "inv s \<longleftrightarrow>
     (\<forall>i. if created s i then sound (wagers s i) else fresh (wagers s i)) \<and>
     (\<forall>i. finalize_count s i = (if resolved (wagers s i) then 1 else 0))"

subsection \<open>The checks of \<^verbatim>\<open>submitReceipt\<close> as the specification lists them\<close>

text \<open>
  The specification names seven preconditions, in order, each with its error. This is that
  list, written from the specification's words for a given recovered signer; it is compared
  with \<open>submitReceipt\<close> below.
\<close>

definition first_violated :: "Wager \<Rightarrow> address \<Rightarrow> ArbitrationReceipt \<Rightarrow> error option" where
  "first_violated w signer r =
    (if partyA w = 0 then Some InvalidParams
     else if \<not> (fundedA w \<and> fundedB w) then Some NotFunded
     else if resolved w then Some AlreadyResolved
     else if \<not> isArbitrator (profile w) signer then Some NotArbitrator
     else if arbitratorHasVoted w signer then Some DuplicateReceipt
     else if \<not> unat (confidenceBps r) \<ge> unat (confidenceThresholdBps (profile w))
       then Some ConfidenceTooLow
     else if ArbitrationReceipt.winner r \<notin> {partyA w, partyB w} then Some UnknownWinner
     else None)"

subsection \<open>A sample deployment\<close>

text \<open>
  The scenario of the specification: parties \<open>10\<close> and \<open>11\<close>, stakes of 100 each in token
  \<open>99\<close>, threshold 8000 bps, two votes required of the arbitrators \<open>1\<close>, \<open>2\<close>, \<open>3\<close>. The
  sample signature scheme names the signer in the first byte of the signature; the empty
  signature is malformed.
\<close>

definition first_byte_signer :: recover where
  "first_byte_signer r sg = (case sg of [] \<Rightarrow> None | b # _ \<Rightarrow> Some (ucast b))"

definition receipt :: "address \<Rightarrow> uint96 \<Rightarrow> ArbitrationReceipt" where
  "receipt win conf = \<lparr>wagerId = 1, winner = win, confidenceBps = conf,
     traceURI = ''ipfs://trace'', timestamp = 1\<rparr>"

definition funded_2of3 :: "tx list" where
  "funded_2of3 =
    [CreateWager 10 11 99 100 100 ''claim'' ''sources'' 8000 2 [1, 2, 3],
     FundEscrow 10 1 A True, FundEscrow 11 1 B True]"

definition funded_1of1 :: "tx list" where
  "funded_1of1 =
    [CreateWager 10 11 99 100 100 ''claim'' ''sources'' 8000 1 [1],
     FundEscrow 10 1 A True, FundEscrow 11 1 B True]"

definition one_vote_2of3 :: "tx list" where
  "one_vote_2of3 = funded_2of3 @ [SubmitReceipt (receipt 10 9000) [1] True]"

text \<open>A panel of 256 different arbitrators, \<open>1\<close> to \<open>256\<close>.\<close>

definition panel256 :: "address list" where
  "panel256 = map of_nat [1..<257]"

definition resolved_1of256 :: "tx list" where
  "resolved_1of256 =
    [CreateWager 10 11 99 100 100 ''claim'' ''sources'' 8000 1 panel256,
     FundEscrow 10 1 A True, FundEscrow 11 1 B True,
     SubmitReceipt (receipt 10 9000) [1] True]"

definition resolved_2of3 :: "tx list" where
  "resolved_2of3 = funded_2of3 @
    [SubmitReceipt (receipt 10 9000) [1] True, SubmitReceipt (receipt 10 8500) [2] True]"

section \<open>Lemmas about the contract\<close>

subsection \<open>What a successful call does\<close>


lemma checked_add_Inr: "checked_add x y = Inr v \<longleftrightarrow> unat x + unat y < 2 ^ 256 \<and> v = x + y"
  by (auto simp: checked_add_def)

lemma checked_add_Inl: "checked_add x y = Inl e \<longleftrightarrow> \<not> unat x + unat y < 2 ^ 256 \<and> e = Panic"
  by (auto simp: checked_add_def)

lemma unat_checked: "unat (x::uint256) + unat y < 2 ^ 256 \<Longrightarrow> unat (x + y) = unat x + unat y"
  by (simp add: unat_add_lem [THEN iffD1])

lemma emit_simps [simp]:
  "nextWagerId (emit e s) = nextWagerId s"
  "wagers (emit e s) = wagers s"
  "self (emit e s) = self s"
  "events (emit e s) = events s @ [e]"
  "calls (emit e s) = calls s"
  by (simp_all add: emit_def)

lemma set_wager_simps [simp]:
  "nextWagerId (set_wager i w s) = nextWagerId s"
  "wagers (set_wager i w s) = (wagers s)(i := w)"
  "self (set_wager i w s) = self s"
  "events (set_wager i w s) = events s"
  "calls (set_wager i w s) = calls s"
  by (simp_all add: set_wager_def)

lemma fundEscrow_A_Inr:
  "fundEscrow (erc20 ok) sender i A s = Inr s' \<longleftrightarrow>
     partyA (wagers s i) \<noteq> 0 \<and> \<not> resolved (wagers s i) \<and> sender = partyA (wagers s i) \<and>
     \<not> fundedA (wagers s i) \<and> ok \<and>
     unat (stakeA (wagers s i)) + unat (stakeARequired (wagers s i)) < 2 ^ 256 \<and>
     s' = emit (EscrowFunded i sender (stakeARequired (wagers s i)))
            (set_wager i ((wagers s i)\<lparr>fundedA := True,
                 stakeA := stakeA (wagers s i) + stakeARequired (wagers s i)\<rparr>)
               (s\<lparr>calls := calls s @ [SafeTransferFrom (token (wagers s i)) sender (self s)
                     (stakeARequired (wagers s i))]\<rparr>))"
  by (auto simp: fundEscrow_def erc20_def checked_add_def Let_def)

lemma fundEscrow_B_Inr:
  "fundEscrow (erc20 ok) sender i B s = Inr s' \<longleftrightarrow>
     partyA (wagers s i) \<noteq> 0 \<and> \<not> resolved (wagers s i) \<and> sender = partyB (wagers s i) \<and>
     \<not> fundedB (wagers s i) \<and> ok \<and>
     unat (stakeB (wagers s i)) + unat (stakeBRequired (wagers s i)) < 2 ^ 256 \<and>
     s' = emit (EscrowFunded i sender (stakeBRequired (wagers s i)))
            (set_wager i ((wagers s i)\<lparr>fundedB := True,
                 stakeB := stakeB (wagers s i) + stakeBRequired (wagers s i)\<rparr>)
               (s\<lparr>calls := calls s @ [SafeTransferFrom (token (wagers s i)) sender (self s)
                     (stakeBRequired (wagers s i))]\<rparr>))"
  by (auto simp: fundEscrow_def erc20_def checked_add_def Let_def)

lemma attachEvidence_Inr:
  "attachEvidence sender i root uri s = Inr s' \<longleftrightarrow>
     (sender = partyA (wagers s i) \<or> sender = partyB (wagers s i)) \<and>
     s' = emit (EvidenceAttached i root uri)
            (set_wager i ((wagers s i)\<lparr>evidenceRoot := root, evidenceURI := uri\<rparr>) s)"
  by (auto simp: attachEvidence_def Let_def)

lemma finalize_Inr:
  "finalize (erc20 ok) i win conf s = Inr s' \<longleftrightarrow>
     \<not> resolved (wagers s i) \<and> ok \<and>
     unat (stakeA (wagers s i)) + unat (stakeB (wagers s i)) < 2 ^ 256 \<and>
     s' = emit (Payout i win (stakeA (wagers s i) + stakeB (wagers s i)))
           ((set_wager i ((wagers s i)\<lparr>resolved := True, winner := win,
                winningConfidenceBps := conf, stakeA := 0, stakeB := 0\<rparr>)
              (emit (Resolved i win conf) s))
            \<lparr>calls := calls s @ [SafeTransfer (token (wagers s i)) win
                 (stakeA (wagers s i) + stakeB (wagers s i))]\<rparr>)"
  by (auto simp: finalize_def erc20_def checked_add_def Let_def emit_def set_wager_def)


lemma mark_arbitrators_iff: "mark_arbitrators as f a \<longleftrightarrow> f a \<or> a \<in> set as"
  by (induction as arbitrary: f) auto

lemma createWager_Inr:
  "createWager sender pB tok sAR sBR clm srcs thr mm arbs s = Inr (i, s') \<longleftrightarrow>
     pB \<noteq> 0 \<and> tok \<noteq> 0 \<and> sAR \<noteq> 0 \<and> sBR \<noteq> 0 \<and> thr \<noteq> 0 \<and> thr \<le> 10000 \<and> arbs \<noteq> [] \<and>
     mm \<noteq> 0 \<and> unat mm \<le> length arbs \<and> unat (nextWagerId s) + 1 < 2 ^ 256 \<and>
     i = nextWagerId s + 1 \<and>
     s' = emit (WagerCreated i sender pB tok sAR sBR thr mm (of_nat (length arbs)))
           (set_wager i ((wagers s i)\<lparr>partyA := sender, partyB := pB, token := tok,
               stakeARequired := sAR, stakeBRequired := sBR, claim := clm, sources := srcs,
               profile := (profile (wagers s i))\<lparr>confidenceThresholdBps := thr, m := mm,
                  n := of_nat (length arbs), arbitrators := arbs,
                  isArbitrator := mark_arbitrators arbs (isArbitrator (profile (wagers s i)))\<rparr>\<rparr>)
             (s\<lparr>nextWagerId := i\<rparr>))"
  by (auto simp: createWager_def checked_add_def Let_def not_less)

lemma submitReceipt_pre:
  assumes "submitReceipt rcv tk r sg s = Inr s'"
  shows "\<exists>signer. rcv r sg = Some signer \<and>
     partyA (wagers s (wagerId r)) \<noteq> 0 \<and> fundedA (wagers s (wagerId r)) \<and>
     fundedB (wagers s (wagerId r)) \<and> \<not> resolved (wagers s (wagerId r)) \<and>
     isArbitrator (profile (wagers s (wagerId r))) signer \<and>
     \<not> arbitratorHasVoted (wagers s (wagerId r)) signer \<and>
     unat (confidenceThresholdBps (profile (wagers s (wagerId r)))) \<le> unat (confidenceBps r) \<and>
     (ArbitrationReceipt.winner r = partyA (wagers s (wagerId r)) \<or>
      ArbitrationReceipt.winner r = partyB (wagers s (wagerId r)))"
  using assms
  by (simp add: submitReceipt_def Let_def split: if_splits option.splits) 

lemma submitReceipt_step:
  assumes "rcv r sg = Some signer"
    and "partyA (wagers s (wagerId r)) \<noteq> 0" "fundedA (wagers s (wagerId r))"
    and "fundedB (wagers s (wagerId r))" "\<not> resolved (wagers s (wagerId r))"
    and "isArbitrator (profile (wagers s (wagerId r))) signer"
    and "\<not> arbitratorHasVoted (wagers s (wagerId r)) signer"
    and "unat (confidenceThresholdBps (profile (wagers s (wagerId r)))) \<le> unat (confidenceBps r)"
    and "ArbitrationReceipt.winner r = partyA (wagers s (wagerId r)) \<or>
      ArbitrationReceipt.winner r = partyB (wagers s (wagerId r))"
  shows "submitReceipt rcv tk r sg s =
    (let i = wagerId r; w = wagers s i;
         w1 = w\<lparr>arbitratorHasVoted := (arbitratorHasVoted w)(signer := True)\<rparr>
     in if ArbitrationReceipt.winner r = partyA w
        then if unat (votesForA w) + 1 < 2 ^ 256
          then let s1 = emit (ReceiptAccepted i signer (ArbitrationReceipt.winner r)
                               (confidenceBps r) (traceURI r))
                          (set_wager i (w1\<lparr>votesForA := votesForA w + 1\<rparr>) s)
               in if unat (m (profile w)) \<le> unat (votesForA w + 1)
                    then finalize tk i (partyA w) (confidenceBps r) s1
                  else if unat (m (profile w)) \<le> unat (votesForB w)
                    then finalize tk i (partyB w) (confidenceBps r) s1
                  else Inr s1
          else Inl Panic
        else if unat (votesForB w) + 1 < 2 ^ 256
          then let s1 = emit (ReceiptAccepted i signer (ArbitrationReceipt.winner r)
                               (confidenceBps r) (traceURI r))
                          (set_wager i (w1\<lparr>votesForB := votesForB w + 1\<rparr>) s)
               in if unat (m (profile w)) \<le> unat (votesForA w)
                    then finalize tk i (partyA w) (confidenceBps r) s1
                  else if unat (m (profile w)) \<le> unat (votesForB w + 1)
                    then finalize tk i (partyB w) (confidenceBps r) s1
                  else Inr s1
          else Inl Panic)"
  using assms
  by (auto simp: submitReceipt_def Let_def checked_add_def)

subsection \<open>The invariant of the reachable states\<close>


lemma created_simps [simp]:
  "created (emit e s) i = created s i"
  "created (set_wager j w s) i = created s i"
  "created (s\<lparr>calls := c\<rparr>) i = created s i"
  by (simp_all add: created_def)

lemma finalize_count_simps [simp]:
  "finalize_count (emit e s) i = finalize_count s i + (if is_Resolved i e then 1 else 0)"
  "finalize_count (set_wager j w s) i = finalize_count s i"
  "finalize_count (s\<lparr>calls := c\<rparr>) i = finalize_count s i"
  "finalize_count (s\<lparr>nextWagerId := k\<rparr>) i = finalize_count s i"
  by (simp_all add: finalize_count_def)

lemma not_created_init: "\<not> created (init_state a) i"
  by (auto simp: created_def init_state_def unat_eq_0)

lemma fresh_zero_wager: "fresh zero_wager"
  by (simp add: fresh_def zero_wager_def zero_profile_def)

lemma resolved_zero_wager: "\<not> resolved zero_wager"
  by (simp add: zero_wager_def)

lemma inv_init: "inv (init_state a)"
  unfolding inv_def
  by (simp add: not_created_init) (simp add: init_state_def fresh_zero_wager finalize_count_def resolved_zero_wager)

lemma invD_sound: "inv s \<Longrightarrow> created s i \<Longrightarrow> sound (wagers s i)"
  by (auto simp: inv_def split: if_splits)

lemma invD_fresh: "inv s \<Longrightarrow> \<not> created s i \<Longrightarrow> fresh (wagers s i)"
  by (auto simp: inv_def split: if_splits)

lemma invD_count: "inv s \<Longrightarrow> finalize_count s i = (if resolved (wagers s i) then 1 else 0)"
  by (simp add: inv_def)

lemma inv_created_if_party: "inv s \<Longrightarrow> partyA (wagers s i) \<noteq> 0 \<Longrightarrow> created s i"
  using invD_fresh [of s i] by (auto simp: fresh_def)

text \<open>A call that rewrites one wager and leaves the id counter alone.\<close>

lemma inv_update:
  assumes "inv s"
    and "\<And>j. created s' j = created s j"
    and "wagers s' = (wagers s)(i := w')"
    and "created s i \<Longrightarrow> sound (wagers s i) \<Longrightarrow> sound w'"
    and "\<not> created s i \<Longrightarrow> fresh (wagers s i) \<Longrightarrow> fresh w'"
    and "\<And>j. finalize_count s' j = (if resolved (wagers s' j) then 1 else 0)"
  shows "inv s'"
  unfolding inv_def
proof (intro conjI allI)
  fix j
  show "if created s' j then sound (wagers s' j) else fresh (wagers s' j)"
    using assms(1-5) invD_sound [of s j] invD_fresh [of s j] by (cases "j = i") auto
  show "finalize_count s' j = (if resolved (wagers s' j) then 1 else 0)"
    by (rule assms(6))
qed

lemma inv_fundEscrow:
  assumes "inv s" and "fundEscrow (erc20 ok) sender i side s = Inr s'"
  shows "inv s'"
proof (cases side)
  case A
  with assms(2) have s': "s' = emit (EscrowFunded i sender (stakeARequired (wagers s i)))
            (set_wager i ((wagers s i)\<lparr>fundedA := True,
                 stakeA := stakeA (wagers s i) + stakeARequired (wagers s i)\<rparr>)
               (s\<lparr>calls := calls s @ [SafeTransferFrom (token (wagers s i)) sender (self s)
                     (stakeARequired (wagers s i))]\<rparr>))"
    and pre: "partyA (wagers s i) \<noteq> 0" "\<not> resolved (wagers s i)" "\<not> fundedA (wagers s i)"
    by (simp_all add: fundEscrow_A_Inr)
  have c: "created s i" using assms(1) pre(1) by (rule inv_created_if_party)
  show ?thesis
  proof (rule inv_update [OF assms(1), where i = i])
    show "wagers s' = (wagers s)(i := (wagers s i)\<lparr>fundedA := True,
                 stakeA := stakeA (wagers s i) + stakeARequired (wagers s i)\<rparr>)"
      by (simp add: s')
    show "sound ((wagers s i)\<lparr>fundedA := True,
                 stakeA := stakeA (wagers s i) + stakeARequired (wagers s i)\<rparr>)"
      if "sound (wagers s i)"
      using that pre by (auto simp: sound_def)
    show "\<And>j. finalize_count s' j = (if resolved (wagers s' j) then 1 else 0)"
      using invD_count [OF assms(1)] pre by (simp add: s')
  qed (use c in \<open>simp_all add: s'\<close>)
next
  case B
  with assms(2) have s': "s' = emit (EscrowFunded i sender (stakeBRequired (wagers s i)))
            (set_wager i ((wagers s i)\<lparr>fundedB := True,
                 stakeB := stakeB (wagers s i) + stakeBRequired (wagers s i)\<rparr>)
               (s\<lparr>calls := calls s @ [SafeTransferFrom (token (wagers s i)) sender (self s)
                     (stakeBRequired (wagers s i))]\<rparr>))"
    and pre: "partyA (wagers s i) \<noteq> 0" "\<not> resolved (wagers s i)" "\<not> fundedB (wagers s i)"
    by (simp_all add: fundEscrow_B_Inr)
  have c: "created s i" using assms(1) pre(1) by (rule inv_created_if_party)
  show ?thesis
  proof (rule inv_update [OF assms(1), where i = i])
    show "wagers s' = (wagers s)(i := (wagers s i)\<lparr>fundedB := True,
                 stakeB := stakeB (wagers s i) + stakeBRequired (wagers s i)\<rparr>)"
      by (simp add: s')
    show "sound ((wagers s i)\<lparr>fundedB := True,
                 stakeB := stakeB (wagers s i) + stakeBRequired (wagers s i)\<rparr>)"
      if "sound (wagers s i)"
      using that pre by (auto simp: sound_def)
    show "\<And>j. finalize_count s' j = (if resolved (wagers s' j) then 1 else 0)"
      using invD_count [OF assms(1)] pre by (simp add: s')
  qed (use c in \<open>simp_all add: s'\<close>)
qed

lemma inv_attachEvidence:
  assumes "inv s" and "attachEvidence sender i root uri s = Inr s'"
  shows "inv s'"
proof -
  from assms(2) have s': "s' = emit (EvidenceAttached i root uri)
            (set_wager i ((wagers s i)\<lparr>evidenceRoot := root, evidenceURI := uri\<rparr>) s)"
    by (simp add: attachEvidence_Inr)
  show ?thesis
  proof (rule inv_update [OF assms(1), where i = i])
    show "wagers s' = (wagers s)(i := (wagers s i)\<lparr>evidenceRoot := root, evidenceURI := uri\<rparr>)"
      by (simp add: s')
    show "\<And>j. finalize_count s' j = (if resolved (wagers s' j) then 1 else 0)"
      using invD_count [OF assms(1)] by (simp add: s')
  qed (auto simp: s' sound_def fresh_def)
qed


lemma card_voted_upd:
  fixes f :: "address \<Rightarrow> bool"
  assumes "\<not> f a"
  shows "card {x. x \<noteq> a \<longrightarrow> f x} = Suc (card (Collect f))"
proof -
  have "{x. x \<noteq> a \<longrightarrow> f x} = insert a (Collect f)" by auto
  moreover have "a \<notin> Collect f" using assms by simp
  ultimately show ?thesis by simp
qed

lemma unat_inc: "unat (x::uint256) + 1 < 2 ^ 256 \<Longrightarrow> unat (x + 1) = Suc (unat x)"
  using unat_checked [of x 1] by simp

lemma sound_vote_A:
  assumes "sound w" "\<not> resolved w" "isArbitrator (profile w) a" "\<not> arbitratorHasVoted w a"
    and "unat (votesForA w) + 1 < 2 ^ 256" "fundedA w" "fundedB w" "partyA w \<noteq> 0"
    and "\<not> unat (m (profile w)) \<le> unat (votesForA w + 1)"
  shows "sound (w\<lparr>arbitratorHasVoted := (arbitratorHasVoted w)(a := True),
                  votesForA := votesForA w + 1\<rparr>)"
  using assms by (auto simp: sound_def card_voted_upd unat_inc)

lemma sound_vote_B:
  assumes "sound w" "\<not> resolved w" "isArbitrator (profile w) a" "\<not> arbitratorHasVoted w a"
    and "unat (votesForB w) + 1 < 2 ^ 256" "fundedA w" "fundedB w" "partyA w \<noteq> 0"
    and "\<not> unat (m (profile w)) \<le> unat (votesForB w + 1)"
  shows "sound (w\<lparr>arbitratorHasVoted := (arbitratorHasVoted w)(a := True),
                  votesForB := votesForB w + 1\<rparr>)"
  using assms by (auto simp: sound_def card_voted_upd unat_inc)

lemma sound_vote_resolve_A:
  assumes "sound w" "\<not> resolved w" "isArbitrator (profile w) a" "\<not> arbitratorHasVoted w a"
    and "unat (votesForA w) + 1 < 2 ^ 256" "fundedA w" "fundedB w" "partyA w \<noteq> 0"
    and "unat (m (profile w)) \<le> unat (votesForA w + 1)"
    and "unat (confidenceThresholdBps (profile w)) \<le> unat conf"
  shows "sound (w\<lparr>arbitratorHasVoted := (arbitratorHasVoted w)(a := True),
                  votesForA := votesForA w + 1, resolved := True, winner := partyA w,
                  winningConfidenceBps := conf, stakeA := 0, stakeB := 0\<rparr>)"
  using assms by (auto simp: sound_def card_voted_upd unat_inc)

lemma sound_vote_resolve_B:
  assumes "sound w" "\<not> resolved w" "isArbitrator (profile w) a" "\<not> arbitratorHasVoted w a"
    and "unat (votesForB w) + 1 < 2 ^ 256" "fundedA w" "fundedB w" "partyA w \<noteq> 0"
    and "unat (m (profile w)) \<le> unat (votesForB w + 1)"
    and "unat (confidenceThresholdBps (profile w)) \<le> unat conf"
  shows "sound (w\<lparr>arbitratorHasVoted := (arbitratorHasVoted w)(a := True),
                  votesForB := votesForB w + 1, resolved := True, winner := partyB w,
                  winningConfidenceBps := conf, stakeA := 0, stakeB := 0\<rparr>)"
  using assms by (auto simp: sound_def card_voted_upd unat_inc)

lemma sound_unresolved_votes:
  "sound w \<Longrightarrow> \<not> resolved w \<Longrightarrow>
     \<not> unat (m (profile w)) \<le> unat (votesForA w) \<and> \<not> unat (m (profile w)) \<le> unat (votesForB w)"
  by (auto simp: sound_def)


lemma submitReceipt_Inr:
  assumes "inv s" and "submitReceipt rcv (erc20 ok) r sg s = Inr s'"
  shows "\<exists>signer w2 win.
     rcv r sg = Some signer \<and> partyA (wagers s (wagerId r)) \<noteq> 0 \<and>
     created s (wagerId r) \<and> fundedA (wagers s (wagerId r)) \<and>
     fundedB (wagers s (wagerId r)) \<and> \<not> resolved (wagers s (wagerId r)) \<and>
     isArbitrator (profile (wagers s (wagerId r))) signer \<and>
     \<not> arbitratorHasVoted (wagers s (wagerId r)) signer \<and>
     unat (confidenceThresholdBps (profile (wagers s (wagerId r)))) \<le> unat (confidenceBps r) \<and>
     win = ArbitrationReceipt.winner r \<and>
     (if win = partyA (wagers s (wagerId r))
      then unat (votesForA (wagers s (wagerId r))) + 1 < 2 ^ 256 \<and>
           w2 = (wagers s (wagerId r))\<lparr>arbitratorHasVoted :=
                   (arbitratorHasVoted (wagers s (wagerId r)))(signer := True),
                 votesForA := votesForA (wagers s (wagerId r)) + 1\<rparr>
      else win = partyB (wagers s (wagerId r)) \<and>
           unat (votesForB (wagers s (wagerId r))) + 1 < 2 ^ 256 \<and>
           w2 = (wagers s (wagerId r))\<lparr>arbitratorHasVoted :=
                   (arbitratorHasVoted (wagers s (wagerId r)))(signer := True),
                 votesForB := votesForB (wagers s (wagerId r)) + 1\<rparr>) \<and>
     (if unat (m (profile w2)) \<le> unat (votesForA w2) \<or> unat (m (profile w2)) \<le> unat (votesForB w2)
      then ok \<and>
           unat (stakeA (wagers s (wagerId r))) + unat (stakeB (wagers s (wagerId r))) < 2 ^ 256 \<and>
           s' = emit (Payout (wagerId r) win
                        (stakeA (wagers s (wagerId r)) + stakeB (wagers s (wagerId r))))
                 ((set_wager (wagerId r)
                     (w2\<lparr>resolved := True, winner := win, winningConfidenceBps := confidenceBps r,
                         stakeA := 0, stakeB := 0\<rparr>)
                     (emit (Resolved (wagerId r) win (confidenceBps r))
                        (emit (ReceiptAccepted (wagerId r) signer win (confidenceBps r) (traceURI r))
                           s)))
                  \<lparr>calls := calls s @ [SafeTransfer (token (wagers s (wagerId r))) win
                       (stakeA (wagers s (wagerId r)) + stakeB (wagers s (wagerId r)))]\<rparr>)
      else s' = emit (ReceiptAccepted (wagerId r) signer win (confidenceBps r) (traceURI r))
                  (set_wager (wagerId r) w2 s))"
proof -
  let ?w = "wagers s (wagerId r)"
  from submitReceipt_pre [OF assms(2)] obtain signer where
    pre: "rcv r sg = Some signer" "partyA ?w \<noteq> 0" "fundedA ?w" "fundedB ?w" "\<not> resolved ?w"
      "isArbitrator (profile ?w) signer" "\<not> arbitratorHasVoted ?w signer"
      "unat (confidenceThresholdBps (profile ?w)) \<le> unat (confidenceBps r)"
      "ArbitrationReceipt.winner r = partyA ?w \<or> ArbitrationReceipt.winner r = partyB ?w"
    by blast
  have c: "created s (wagerId r)" using assms(1) pre(2) by (rule inv_created_if_party)
  have snd: "sound ?w" using assms(1) c by (rule invD_sound)
  note nv = sound_unresolved_votes [OF snd pre(5)]
  have step: "submitReceipt rcv (erc20 ok) r sg s = Inr s'" by (rule assms(2))
  note unf = submitReceipt_step [of rcv r sg signer s "erc20 ok", OF pre]
  show ?thesis
  proof (cases "ArbitrationReceipt.winner r = partyA ?w")
    case True
    with step nv pre show ?thesis
      unfolding unf
      by (auto simp: Let_def finalize_Inr c emit_def set_wager_def split: if_splits)
  next
    case False
    with step nv pre show ?thesis
      unfolding unf
      by (auto simp: Let_def finalize_Inr c emit_def set_wager_def split: if_splits)
  qed
qed


lemma inv_submitReceipt:
  assumes "inv s" and "submitReceipt rcv (erc20 ok) r sg s = Inr s'"
  shows "inv s'"
proof -
  let ?i = "wagerId r"
  let ?w = "wagers s ?i"
  from submitReceipt_Inr [OF assms] obtain signer w2 where
    pre: "created s ?i" "fundedA ?w" "fundedB ?w" "\<not> resolved ?w"
      "isArbitrator (profile ?w) signer" "\<not> arbitratorHasVoted ?w signer"
      "unat (confidenceThresholdBps (profile ?w)) \<le> unat (confidenceBps r)"
      "partyA ?w \<noteq> 0"
    and w2: "if ArbitrationReceipt.winner r = partyA ?w
      then unat (votesForA ?w) + 1 < 2 ^ 256 \<and>
           w2 = ?w\<lparr>arbitratorHasVoted := (arbitratorHasVoted ?w)(signer := True),
                 votesForA := votesForA ?w + 1\<rparr>
      else ArbitrationReceipt.winner r = partyB ?w \<and>
           unat (votesForB ?w) + 1 < 2 ^ 256 \<and>
           w2 = ?w\<lparr>arbitratorHasVoted := (arbitratorHasVoted ?w)(signer := True),
                 votesForB := votesForB ?w + 1\<rparr>"
    and s': "if unat (m (profile w2)) \<le> unat (votesForA w2) \<or> unat (m (profile w2)) \<le> unat (votesForB w2)
      then ok \<and> unat (stakeA ?w) + unat (stakeB ?w) < 2 ^ 256 \<and>
           s' = emit (Payout ?i (ArbitrationReceipt.winner r) (stakeA ?w + stakeB ?w))
                 ((set_wager ?i
                     (w2\<lparr>resolved := True, winner := ArbitrationReceipt.winner r,
                         winningConfidenceBps := confidenceBps r, stakeA := 0, stakeB := 0\<rparr>)
                     (emit (Resolved ?i (ArbitrationReceipt.winner r) (confidenceBps r))
                        (emit (ReceiptAccepted ?i signer (ArbitrationReceipt.winner r)
                                 (confidenceBps r) (traceURI r)) s)))
                  \<lparr>calls := calls s @ [SafeTransfer (token ?w) (ArbitrationReceipt.winner r)
                       (stakeA ?w + stakeB ?w)]\<rparr>)
      else s' = emit (ReceiptAccepted ?i signer (ArbitrationReceipt.winner r)
                        (confidenceBps r) (traceURI r))
                  (set_wager ?i w2 s)"
    by blast
  have snd: "sound ?w" using assms(1) pre(1) by (rule invD_sound)
  note nv = sound_unresolved_votes [OF snd pre(4)]
  note cnt = invD_count [OF assms(1)]
  show ?thesis
  proof (cases "unat (m (profile w2)) \<le> unat (votesForA w2) \<or> unat (m (profile w2)) \<le> unat (votesForB w2)")
    case fin: True
    let ?w3 = "w2\<lparr>resolved := True, winner := ArbitrationReceipt.winner r,
                         winningConfidenceBps := confidenceBps r, stakeA := 0, stakeB := 0\<rparr>"
    from fin s' have s'_eq: "wagers s' = (wagers s)(?i := ?w3)"
      and ev: "events s' = events s @ [ReceiptAccepted ?i signer (ArbitrationReceipt.winner r)
                                 (confidenceBps r) (traceURI r),
                Resolved ?i (ArbitrationReceipt.winner r) (confidenceBps r),
                Payout ?i (ArbitrationReceipt.winner r) (stakeA ?w + stakeB ?w)]"
      and nx: "nextWagerId s' = nextWagerId s"
      by simp_all
    have "sound ?w3"
    proof (cases "ArbitrationReceipt.winner r = partyA ?w")
      case True
      with w2 fin nv show ?thesis
        using sound_vote_resolve_A [OF snd pre(4,5,6) _ pre(2,3,8) _ pre(7)] by simp
    next
      case False
      with w2 fin nv show ?thesis
        using sound_vote_resolve_B [OF snd pre(4,5,6) _ pre(2,3,8) _ pre(7)] by simp
    qed
    then show ?thesis
      using assms(1) pre(1,4) cnt
      by (intro inv_update [OF assms(1), where i = ?i and w' = ?w3])
         (simp_all add: s'_eq created_def nx finalize_count_def ev)
  next
    case nofin: False
    from nofin s' have s'_eq: "wagers s' = (wagers s)(?i := w2)"
      and ev: "events s' = events s @ [ReceiptAccepted ?i signer (ArbitrationReceipt.winner r)
                                 (confidenceBps r) (traceURI r)]"
      and nx: "nextWagerId s' = nextWagerId s"
      by simp_all
    have "sound w2"
    proof (cases "ArbitrationReceipt.winner r = partyA ?w")
      case True
      with w2 nofin show ?thesis
        using sound_vote_A [OF snd pre(4,5,6) _ pre(2,3,8)] by simp
    next
      case False
      with w2 nofin show ?thesis
        using sound_vote_B [OF snd pre(4,5,6) _ pre(2,3,8)] by simp
    qed
    moreover have "resolved w2 = resolved ?w"
      using w2 by (simp split: if_splits)
    ultimately show ?thesis
      using assms(1) pre(1,4) cnt
      by (intro inv_update [OF assms(1), where i = ?i and w' = w2])
         (simp_all add: s'_eq created_def nx finalize_count_def ev)
  qed
qed

lemma created_after_create:
  assumes "unat (nextWagerId s) + 1 < 2 ^ 256"
  shows "created (s\<lparr>nextWagerId := nextWagerId s + 1\<rparr>) j \<longleftrightarrow> created s j \<or> j = nextWagerId s + 1"
proof -
  have u: "unat (nextWagerId s + 1) = Suc (unat (nextWagerId s))"
    using assms by (rule unat_inc)
  have "j = nextWagerId s + 1 \<longleftrightarrow> unat j = Suc (unat (nextWagerId s))"
    using u by (simp add: word_unat_eq_iff)
  moreover have "nextWagerId s + 1 \<noteq> 0" using u by (metis nat.distinct(1) unat_0)
  ultimately show ?thesis by (auto simp: created_def u)
qed

lemma not_created_next:
  assumes "unat (nextWagerId s) + 1 < 2 ^ 256"
  shows "\<not> created s (nextWagerId s + 1)"
  using unat_inc [OF assms] by (simp add: created_def)

lemma sound_create:
  assumes "fresh w" "pB \<noteq> 0" "tok \<noteq> 0" "sAR \<noteq> 0" "sBR \<noteq> 0" "thr \<noteq> 0" "thr \<le> 10000"
    "mm \<noteq> 0" "unat mm \<le> length arbs"
  shows "sound (w\<lparr>partyA := sender, partyB := pB, token := tok,
               stakeARequired := sAR, stakeBRequired := sBR, claim := clm, sources := srcs,
               profile := (profile w)\<lparr>confidenceThresholdBps := thr, m := mm,
                  n := of_nat (length arbs), arbitrators := arbs,
                  isArbitrator := mark_arbitrators arbs (isArbitrator (profile w))\<rparr>\<rparr>)"
proof -
  have "unat thr \<le> 10000" using assms(7) by (simp add: word_le_nat_alt)
  moreover have "unat mm \<noteq> 0" using assms(8) by (simp add: unat_eq_0)
  ultimately show ?thesis
    using assms by (auto simp: sound_def fresh_def mark_arbitrators_iff)
qed

lemma inv_createWager:
  assumes "inv s" and "createWager sender pB tok sAR sBR clm srcs thr mm arbs s = Inr (i, s')"
  shows "inv s'"
proof -
  let ?w1 = "(wagers s i)\<lparr>partyA := sender, partyB := pB, token := tok,
               stakeARequired := sAR, stakeBRequired := sBR, claim := clm, sources := srcs,
               profile := (profile (wagers s i))\<lparr>confidenceThresholdBps := thr, m := mm,
                  n := of_nat (length arbs), arbitrators := arbs,
                  isArbitrator := mark_arbitrators arbs (isArbitrator (profile (wagers s i)))\<rparr>\<rparr>"
  from assms(2) have pre: "pB \<noteq> 0" "tok \<noteq> 0" "sAR \<noteq> 0" "sBR \<noteq> 0" "thr \<noteq> 0" "thr \<le> 10000"
      "mm \<noteq> 0" "unat mm \<le> length arbs"
    and nx: "unat (nextWagerId s) + 1 < 2 ^ 256" and i: "i = nextWagerId s + 1"
    and s': "s' = emit (WagerCreated i sender pB tok sAR sBR thr mm (of_nat (length arbs)))
           (set_wager i ?w1 (s\<lparr>nextWagerId := i\<rparr>))"
    by (simp_all add: createWager_Inr)
  have nc: "\<not> created s i" unfolding i using nx by (rule not_created_next)
  have fr: "fresh (wagers s i)" using assms(1) nc by (rule invD_fresh)
  have snd: "sound ?w1" using fr pre by (rule sound_create)
  have cr: "created (s\<lparr>nextWagerId := i\<rparr>) j \<longleftrightarrow> created s j \<or> j = i" for j
    using created_after_create [OF nx, of j] by (simp add: i)
  have nr: "\<not> resolved (wagers s i)" using fr by (simp add: fresh_def)
  show ?thesis
    unfolding inv_def
  proof (intro conjI allI)
    fix j
    show "if created s' j then sound (wagers s' j) else fresh (wagers s' j)"
      using invD_sound [OF assms(1), of j] invD_fresh [OF assms(1), of j] snd nc
      by (cases "j = i") (auto simp: cr s')
    show "finalize_count s' j = (if resolved (wagers s' j) then 1 else 0)"
      using invD_count [OF assms(1), of j] nr by (simp add: s')
  qed
qed

lemma inv_exec: "inv s \<Longrightarrow> inv (exec rcv t s)"
proof (cases t)
  case (CreateWager sender pB tok sAR sBR clm srcs thr mm arbs)
  assume "inv s"
  then show ?thesis
    using inv_createWager [of s sender pB tok sAR sBR clm srcs thr mm arbs]
    by (cases "createWager sender pB tok sAR sBR clm srcs thr mm arbs s")
       (auto simp: exec_def CreateWager)
next
  case (FundEscrow sender i side ok)
  assume "inv s"
  then show ?thesis
    using inv_fundEscrow [of s ok sender i side]
    by (auto simp: exec_def FundEscrow split: sum.splits)
next
  case (AttachEvidence sender i root uri)
  assume "inv s"
  then show ?thesis
    using inv_attachEvidence [of s sender i root uri]
    by (auto simp: exec_def AttachEvidence split: sum.splits)
next
  case (SubmitReceipt r sg ok)
  assume "inv s"
  then show ?thesis
    using inv_submitReceipt [of s rcv ok r sg]
    by (auto simp: exec_def SubmitReceipt split: sum.splits)
qed

lemma inv_execs: "inv s \<Longrightarrow> inv (execs rcv ts s)"
  by (induction ts arbitrary: s) (simp_all add: inv_exec)

lemma inv_reachable: "inv (execs rcv ts (init_state a))"
  by (rule inv_execs [OF inv_init])

text \<open>The same, field by field.\<close>

lemma submitReceipt_fields:
  assumes "inv s" and "submitReceipt rcv (erc20 ok) r sg s = Inr s'"
  obtains signer w2 where
    "rcv r sg = Some signer" and "partyA (wagers s (wagerId r)) \<noteq> 0"
    and "created s (wagerId r)"
    and "fundedA (wagers s (wagerId r))" and "fundedB (wagers s (wagerId r))"
    and "\<not> resolved (wagers s (wagerId r))"
    and "isArbitrator (profile (wagers s (wagerId r))) signer"
    and "\<not> arbitratorHasVoted (wagers s (wagerId r)) signer"
    and "unat (confidenceThresholdBps (profile (wagers s (wagerId r)))) \<le> unat (confidenceBps r)"
    and "ArbitrationReceipt.winner r = partyA (wagers s (wagerId r)) \<or>
         ArbitrationReceipt.winner r = partyB (wagers s (wagerId r))"
    and "w2 = (if ArbitrationReceipt.winner r = partyA (wagers s (wagerId r))
          then (wagers s (wagerId r))\<lparr>arbitratorHasVoted :=
                   (arbitratorHasVoted (wagers s (wagerId r)))(signer := True),
                 votesForA := votesForA (wagers s (wagerId r)) + 1\<rparr>
          else (wagers s (wagerId r))\<lparr>arbitratorHasVoted :=
                   (arbitratorHasVoted (wagers s (wagerId r)))(signer := True),
                 votesForB := votesForB (wagers s (wagerId r)) + 1\<rparr>)"
    and "if ArbitrationReceipt.winner r = partyA (wagers s (wagerId r))
         then unat (votesForA (wagers s (wagerId r))) + 1 < 2 ^ 256
         else unat (votesForB (wagers s (wagerId r))) + 1 < 2 ^ 256"
    and "nextWagerId s' = nextWagerId s"
    and "if unat (m (profile w2)) \<le> unat (votesForA w2) \<or> unat (m (profile w2)) \<le> unat (votesForB w2)
         then ok \<and>
           unat (stakeA (wagers s (wagerId r))) + unat (stakeB (wagers s (wagerId r))) < 2 ^ 256 \<and>
           wagers s' = (wagers s)(wagerId r :=
              w2\<lparr>resolved := True, winner := ArbitrationReceipt.winner r,
                 winningConfidenceBps := confidenceBps r, stakeA := 0, stakeB := 0\<rparr>) \<and>
           events s' = events s @
             [ReceiptAccepted (wagerId r) signer (ArbitrationReceipt.winner r)
                (confidenceBps r) (traceURI r),
              Resolved (wagerId r) (ArbitrationReceipt.winner r) (confidenceBps r),
              Payout (wagerId r) (ArbitrationReceipt.winner r)
                (stakeA (wagers s (wagerId r)) + stakeB (wagers s (wagerId r)))] \<and>
           calls s' = calls s @
             [SafeTransfer (token (wagers s (wagerId r))) (ArbitrationReceipt.winner r)
                (stakeA (wagers s (wagerId r)) + stakeB (wagers s (wagerId r)))]
         else wagers s' = (wagers s)(wagerId r := w2) \<and>
           events s' = events s @
             [ReceiptAccepted (wagerId r) signer (ArbitrationReceipt.winner r)
                (confidenceBps r) (traceURI r)] \<and>
           calls s' = calls s"
proof -
  let ?i = "wagerId r"
  let ?w = "wagers s ?i"
  from submitReceipt_Inr [OF assms] obtain signer w2 where
    pre: "rcv r sg = Some signer" "partyA ?w \<noteq> 0" "created s ?i" "fundedA ?w" "fundedB ?w"
      "\<not> resolved ?w" "isArbitrator (profile ?w) signer" "\<not> arbitratorHasVoted ?w signer"
      "unat (confidenceThresholdBps (profile ?w)) \<le> unat (confidenceBps r)"
    and w2: "if ArbitrationReceipt.winner r = partyA ?w
      then unat (votesForA ?w) + 1 < 2 ^ 256 \<and>
           w2 = ?w\<lparr>arbitratorHasVoted := (arbitratorHasVoted ?w)(signer := True),
                 votesForA := votesForA ?w + 1\<rparr>
      else ArbitrationReceipt.winner r = partyB ?w \<and>
           unat (votesForB ?w) + 1 < 2 ^ 256 \<and>
           w2 = ?w\<lparr>arbitratorHasVoted := (arbitratorHasVoted ?w)(signer := True),
                 votesForB := votesForB ?w + 1\<rparr>"
    and s': "if unat (m (profile w2)) \<le> unat (votesForA w2) \<or> unat (m (profile w2)) \<le> unat (votesForB w2)
      then ok \<and> unat (stakeA ?w) + unat (stakeB ?w) < 2 ^ 256 \<and>
           s' = emit (Payout ?i (ArbitrationReceipt.winner r) (stakeA ?w + stakeB ?w))
                 ((set_wager ?i
                     (w2\<lparr>resolved := True, winner := ArbitrationReceipt.winner r,
                         winningConfidenceBps := confidenceBps r, stakeA := 0, stakeB := 0\<rparr>)
                     (emit (Resolved ?i (ArbitrationReceipt.winner r) (confidenceBps r))
                        (emit (ReceiptAccepted ?i signer (ArbitrationReceipt.winner r)
                                 (confidenceBps r) (traceURI r)) s)))
                  \<lparr>calls := calls s @ [SafeTransfer (token ?w) (ArbitrationReceipt.winner r)
                       (stakeA ?w + stakeB ?w)]\<rparr>)
      else s' = emit (ReceiptAccepted ?i signer (ArbitrationReceipt.winner r)
                        (confidenceBps r) (traceURI r))
                  (set_wager ?i w2 s)"
    by blast
  show thesis
  proof (rule that [of signer w2])
    show "ArbitrationReceipt.winner r = partyA ?w \<or> ArbitrationReceipt.winner r = partyB ?w"
      using w2 by (simp split: if_splits)
    show "w2 = (if ArbitrationReceipt.winner r = partyA ?w
          then ?w\<lparr>arbitratorHasVoted := (arbitratorHasVoted ?w)(signer := True),
                 votesForA := votesForA ?w + 1\<rparr>
          else ?w\<lparr>arbitratorHasVoted := (arbitratorHasVoted ?w)(signer := True),
                 votesForB := votesForB ?w + 1\<rparr>)"
      using w2 by (simp split: if_splits)
    show "if ArbitrationReceipt.winner r = partyA ?w
         then unat (votesForA ?w) + 1 < 2 ^ 256
         else unat (votesForB ?w) + 1 < 2 ^ 256"
      using w2 by (simp split: if_splits)
    show "nextWagerId s' = nextWagerId s"
      using s' by (simp split: if_splits)
    show "if unat (m (profile w2)) \<le> unat (votesForA w2) \<or> unat (m (profile w2)) \<le> unat (votesForB w2)
         then ok \<and>
           unat (stakeA ?w) + unat (stakeB ?w) < 2 ^ 256 \<and>
           wagers s' = (wagers s)(?i :=
              w2\<lparr>resolved := True, winner := ArbitrationReceipt.winner r,
                 winningConfidenceBps := confidenceBps r, stakeA := 0, stakeB := 0\<rparr>) \<and>
           events s' = events s @
             [ReceiptAccepted ?i signer (ArbitrationReceipt.winner r)
                (confidenceBps r) (traceURI r),
              Resolved ?i (ArbitrationReceipt.winner r) (confidenceBps r),
              Payout ?i (ArbitrationReceipt.winner r) (stakeA ?w + stakeB ?w)] \<and>
           calls s' = calls s @
             [SafeTransfer (token ?w) (ArbitrationReceipt.winner r) (stakeA ?w + stakeB ?w)]
         else wagers s' = (wagers s)(?i := w2) \<and>
           events s' = events s @
             [ReceiptAccepted ?i signer (ArbitrationReceipt.winner r)
                (confidenceBps r) (traceURI r)] \<and>
           calls s' = calls s"
      using s' by (simp split: if_splits)
  qed (rule pre)+
qed

text \<open>Evaluating the sample panel without unfolding its 256 entries.\<close>

lemma panel256_simps:
  "length panel256 = 256" "mark_arbitrators panel256 f 1 = True"
proof -
  show "length panel256 = 256" by (simp add: panel256_def)
  have "(1::address) \<in> of_nat ` {1..<257}"
    by (rule image_eqI [where x = 1]) simp_all
  then show "mark_arbitrators panel256 f 1 = True"
    by (simp add: mark_arbitrators_iff panel256_def)
qed

section \<open>The properties of the specification\<close>

lemmas run_defs = exec_def createWager_def fundEscrow_def attachEvidence_def
  submitReceipt_def finalize_def erc20_def emit_def set_wager_def init_state_def
  zero_wager_def zero_profile_def checked_add_def Let_def created_def

lemmas sample_defs = first_byte_signer_def receipt_def funded_2of3_def resolved_2of3_def
  funded_1of1_def one_vote_2of3_def resolved_1of256_def

text \<open>
  What \<^verbatim>\<open>submitReceipt\<close> does enforce on the confidence of a receipt: it is at least the
  wager's threshold, which lies between 1 and 10000, so a resolved wager stores a winning
  confidence of at least its threshold.
\<close>

lemma accepted_confidence_at_least_threshold:
  assumes "s = execs rcv ts (init_state a)"
  shows "(submitReceipt rcv (erc20 ok) r sg s = Inr s' \<longrightarrow>
            unat (confidenceThresholdBps (profile (wagers s (wagerId r)))) \<le> unat (confidenceBps r)) \<and>
         (created s i \<longrightarrow>
            1 \<le> unat (confidenceThresholdBps (profile (wagers s i))) \<and>
            unat (confidenceThresholdBps (profile (wagers s i))) \<le> 10000 \<and>
            (resolved (wagers s i) \<longrightarrow>
               unat (confidenceThresholdBps (profile (wagers s i)))
                 \<le> unat (winningConfidenceBps (wagers s i))))"
proof (intro conjI impI)
  assume "submitReceipt rcv (erc20 ok) r sg s = Inr s'"
  from submitReceipt_pre [OF this]
  show "unat (confidenceThresholdBps (profile (wagers s (wagerId r)))) \<le> unat (confidenceBps r)"
    by blast
next
  have i: "inv s" unfolding assms(1) by (rule inv_reachable)
  {
    assume "created s i"
    with i have snd: "sound (wagers s i)" by (rule invD_sound)
    then have "confidenceThresholdBps (profile (wagers s i)) \<noteq> 0" by (simp add: sound_def)
    then show "1 \<le> unat (confidenceThresholdBps (profile (wagers s i)))"
      by (simp add: unat_gt_0 Suc_le_eq)
    show "unat (confidenceThresholdBps (profile (wagers s i))) \<le> 10000"
      using snd by (simp add: sound_def)
    assume "resolved (wagers s i)"
    with snd show "unat (confidenceThresholdBps (profile (wagers s i)))
                 \<le> unat (winningConfidenceBps (wagers s i))"
      by (simp add: sound_def)
  }
qed

lemma accepted_confidence_at_least_threshold_example:
  "unat (confidenceThresholdBps (profile (wagers
      (execs first_byte_signer funded_2of3 (init_state 77)) 1))) \<le> unat (9000 :: uint96) \<and>
   unat (confidenceThresholdBps (profile (wagers
      (execs first_byte_signer resolved_2of3 (init_state 77)) 1)))
    \<le> unat (winningConfidenceBps (wagers
      (execs first_byte_signer resolved_2of3 (init_state 77)) 1))"
proof -
  let ?fs = "execs first_byte_signer funded_2of3 (init_state 77)"
  let ?rs = "execs first_byte_signer resolved_2of3 (init_state 77)"
  have "submitReceipt first_byte_signer (erc20 True) (receipt 10 9000) [1] ?fs
          = Inr (execs first_byte_signer (funded_2of3 @ [SubmitReceipt (receipt 10 9000) [1] True])
                   (init_state 77))"
    by (simp add: run_defs sample_defs)
  with accepted_confidence_at_least_threshold
         [OF refl, where rcv = first_byte_signer and ts = funded_2of3 and a = 77 and ok = True
            and r = "receipt 10 9000" and sg = "[1]"]
  have 1: "unat (confidenceThresholdBps (profile (wagers ?fs (wagerId (receipt 10 9000)))))
             \<le> unat (confidenceBps (receipt 10 9000))"
    by blast
  have "created ?rs 1 \<and> resolved (wagers ?rs 1)"
    by (simp add: run_defs sample_defs)
  with accepted_confidence_at_least_threshold
         [OF refl, where rcv = first_byte_signer and ts = resolved_2of3 and a = 77 and i = 1]
  have 2: "unat (confidenceThresholdBps (profile (wagers ?rs 1)))
             \<le> unat (winningConfidenceBps (wagers ?rs 1))"
    by blast
  from 1 2 show ?thesis by (simp add: receipt_def)
qed

text \<open>
  C1. In every reachable state a created wager is resolved exactly when one of its two vote
  counts has reached \<open>m\<close>, and \<^verbatim>\<open>_finalize\<close> has run for it once if it is resolved and
  never otherwise. The call of \<^verbatim>\<open>submitReceipt\<close> that brings a count to \<open>m\<close> starts from
  an unresolved wager with both counts below \<open>m\<close> and ends with the wager resolved, the
  winner being the party named by that receipt (party A if it was the count for A that
  reached \<open>m\<close>, party B otherwise) and the stored confidence being the confidence of that
  receipt.
\<close>

theorem resolved_iff_quorum:
  assumes "s = execs rcv ts (init_state a)" and "created s i"
  shows "(resolved (wagers s i) \<longleftrightarrow>
            unat (m (profile (wagers s i))) \<le> unat (votesForA (wagers s i)) \<or>
            unat (m (profile (wagers s i))) \<le> unat (votesForB (wagers s i))) \<and>
         finalize_count s i = (if resolved (wagers s i) then 1 else 0) \<and>
         (\<forall>r sg ok s'.
            wagerId r = i \<and> submitReceipt rcv (erc20 ok) r sg s = Inr s' \<and>
            (unat (m (profile (wagers s' i))) \<le> unat (votesForA (wagers s' i)) \<or>
             unat (m (profile (wagers s' i))) \<le> unat (votesForB (wagers s' i)))
            \<longrightarrow> unat (votesForA (wagers s i)) < unat (m (profile (wagers s i))) \<and>
                unat (votesForB (wagers s i)) < unat (m (profile (wagers s i))) \<and>
                \<not> resolved (wagers s i) \<and> resolved (wagers s' i) \<and>
                Wager.winner (wagers s' i) = ArbitrationReceipt.winner r \<and>
                Wager.winner (wagers s' i) =
                  (if unat (m (profile (wagers s' i))) \<le> unat (votesForA (wagers s' i))
                   then partyA (wagers s' i) else partyB (wagers s' i)) \<and>
                winningConfidenceBps (wagers s' i) = confidenceBps r \<and>
                finalize_count s i = 0 \<and> finalize_count s' i = 1)"
proof -
  have i: "inv s" unfolding assms(1) by (rule inv_reachable)
  have snd: "sound (wagers s i)" using i assms(2) by (rule invD_sound)
  have 1: "resolved (wagers s i) \<longleftrightarrow>
            unat (m (profile (wagers s i))) \<le> unat (votesForA (wagers s i)) \<or>
            unat (m (profile (wagers s i))) \<le> unat (votesForB (wagers s i))"
    using snd by (simp add: sound_def)
  have 2: "finalize_count s i = (if resolved (wagers s i) then 1 else 0)"
    using i by (rule invD_count)
  have 3: "unat (votesForA (wagers s i)) < unat (m (profile (wagers s i))) \<and>
                unat (votesForB (wagers s i)) < unat (m (profile (wagers s i))) \<and>
                \<not> resolved (wagers s i) \<and> resolved (wagers s' i) \<and>
                Wager.winner (wagers s' i) = ArbitrationReceipt.winner r \<and>
                Wager.winner (wagers s' i) =
                  (if unat (m (profile (wagers s' i))) \<le> unat (votesForA (wagers s' i))
                   then partyA (wagers s' i) else partyB (wagers s' i)) \<and>
                winningConfidenceBps (wagers s' i) = confidenceBps r \<and>
                finalize_count s i = 0 \<and> finalize_count s' i = 1"
    if r: "wagerId r = i" and sub: "submitReceipt rcv (erc20 ok) r sg s = Inr s'"
      and q: "unat (m (profile (wagers s' i))) \<le> unat (votesForA (wagers s' i)) \<or>
             unat (m (profile (wagers s' i))) \<le> unat (votesForB (wagers s' i))"
    for r sg ok s'
  proof -
    let ?w = "wagers s i"
    from submitReceipt_fields [OF i sub] obtain signer w2 where
      pre: "\<not> resolved (wagers s (wagerId r))"
      and w2: "w2 = (if ArbitrationReceipt.winner r = partyA (wagers s (wagerId r))
          then (wagers s (wagerId r))\<lparr>arbitratorHasVoted :=
                   (arbitratorHasVoted (wagers s (wagerId r)))(signer := True),
                 votesForA := votesForA (wagers s (wagerId r)) + 1\<rparr>
          else (wagers s (wagerId r))\<lparr>arbitratorHasVoted :=
                   (arbitratorHasVoted (wagers s (wagerId r)))(signer := True),
                 votesForB := votesForB (wagers s (wagerId r)) + 1\<rparr>)"
      and wn: "ArbitrationReceipt.winner r = partyA (wagers s (wagerId r)) \<or>
         ArbitrationReceipt.winner r = partyB (wagers s (wagerId r))"
      and s': "if unat (m (profile w2)) \<le> unat (votesForA w2) \<or> unat (m (profile w2)) \<le> unat (votesForB w2)
         then ok \<and>
           unat (stakeA (wagers s (wagerId r))) + unat (stakeB (wagers s (wagerId r))) < 2 ^ 256 \<and>
           wagers s' = (wagers s)(wagerId r :=
              w2\<lparr>resolved := True, winner := ArbitrationReceipt.winner r,
                 winningConfidenceBps := confidenceBps r, stakeA := 0, stakeB := 0\<rparr>) \<and>
           events s' = events s @
             [ReceiptAccepted (wagerId r) signer (ArbitrationReceipt.winner r)
                (confidenceBps r) (traceURI r),
              Resolved (wagerId r) (ArbitrationReceipt.winner r) (confidenceBps r),
              Payout (wagerId r) (ArbitrationReceipt.winner r)
                (stakeA (wagers s (wagerId r)) + stakeB (wagers s (wagerId r)))] \<and>
           calls s' = calls s @
             [SafeTransfer (token (wagers s (wagerId r))) (ArbitrationReceipt.winner r)
                (stakeA (wagers s (wagerId r)) + stakeB (wagers s (wagerId r)))]
         else wagers s' = (wagers s)(wagerId r := w2) \<and>
           events s' = events s @
             [ReceiptAccepted (wagerId r) signer (ArbitrationReceipt.winner r)
                (confidenceBps r) (traceURI r)] \<and>
           calls s' = calls s"
      by blast
    have pre': "\<not> resolved ?w" using pre r by simp
    note nv = sound_unresolved_votes [OF snd pre']
    have fin: "unat (m (profile w2)) \<le> unat (votesForA w2) \<or> unat (m (profile w2)) \<le> unat (votesForB w2)"
      using q s' r by (auto split: if_splits)
    with s' r have ws: "wagers s' i = w2\<lparr>resolved := True, winner := ArbitrationReceipt.winner r,
                         winningConfidenceBps := confidenceBps r, stakeA := 0, stakeB := 0\<rparr>"
      and ev: "events s' = events s @ [ReceiptAccepted i signer (ArbitrationReceipt.winner r)
                                 (confidenceBps r) (traceURI r),
                Resolved i (ArbitrationReceipt.winner r) (confidenceBps r),
                Payout i (ArbitrationReceipt.winner r) (stakeA ?w + stakeB ?w)]"
      by simp_all
    have c0: "finalize_count s i = 0" using 2 pre' by simp
    then have c1: "finalize_count s' i = 1" by (simp add: finalize_count_def ev)
    have win: "ArbitrationReceipt.winner r =
                  (if unat (m (profile w2)) \<le> unat (votesForA w2)
                   then partyA w2 else partyB w2)"
      using w2 fin nv wn r by (auto split: if_splits)
    show ?thesis
      using nv pre' c0 c1 win by (simp add: ws not_le)
  qed
  have 4: "\<forall>r sg ok s'.
            wagerId r = i \<and> submitReceipt rcv (erc20 ok) r sg s = Inr s' \<and>
            (unat (m (profile (wagers s' i))) \<le> unat (votesForA (wagers s' i)) \<or>
             unat (m (profile (wagers s' i))) \<le> unat (votesForB (wagers s' i)))
            \<longrightarrow> unat (votesForA (wagers s i)) < unat (m (profile (wagers s i))) \<and>
                unat (votesForB (wagers s i)) < unat (m (profile (wagers s i))) \<and>
                \<not> resolved (wagers s i) \<and> resolved (wagers s' i) \<and>
                Wager.winner (wagers s' i) = ArbitrationReceipt.winner r \<and>
                Wager.winner (wagers s' i) =
                  (if unat (m (profile (wagers s' i))) \<le> unat (votesForA (wagers s' i))
                   then partyA (wagers s' i) else partyB (wagers s' i)) \<and>
                winningConfidenceBps (wagers s' i) = confidenceBps r \<and>
                finalize_count s i = 0 \<and> finalize_count s' i = 1"
    by (intro allI impI, elim conjE, rule 3, assumption+)
  show ?thesis by (rule conjI [OF 1 conjI [OF 2 4]])
qed

theorem resolved_iff_quorum_witness:
  "\<not> resolved (wagers (execs first_byte_signer one_vote_2of3 (init_state 77)) 1) \<and>
   votesForA (wagers (execs first_byte_signer one_vote_2of3 (init_state 77)) 1) = 1 \<and>
   resolved (wagers (execs first_byte_signer resolved_2of3 (init_state 77)) 1) \<and>
   votesForA (wagers (execs first_byte_signer resolved_2of3 (init_state 77)) 1) = 2 \<and>
   Wager.winner (wagers (execs first_byte_signer resolved_2of3 (init_state 77)) 1) = 10 \<and>
   winningConfidenceBps (wagers (execs first_byte_signer resolved_2of3 (init_state 77)) 1) = 8500 \<and>
   finalize_count (execs first_byte_signer resolved_2of3 (init_state 77)) 1 = 1"
proof -
  let ?p = "execs first_byte_signer one_vote_2of3 (init_state 77)"
  let ?q = "execs first_byte_signer resolved_2of3 (init_state 77)"
  let ?r = "receipt 10 8500"
  have c: "created ?p 1" by (simp add: run_defs sample_defs)
  note T = resolved_iff_quorum [where rcv = first_byte_signer and ts = one_vote_2of3
     and a = 77 and i = 1, OF refl c]
  have v: "votesForA (wagers ?p 1) = 1" "votesForA (wagers ?q 1) = 2"
    by (simp_all add: run_defs sample_defs)
  have h: "wagerId ?r = 1 \<and> submitReceipt first_byte_signer (erc20 True) ?r [2] ?p = Inr ?q \<and>
    (unat (m (profile (wagers ?q 1))) \<le> unat (votesForA (wagers ?q 1)) \<or>
     unat (m (profile (wagers ?q 1))) \<le> unat (votesForB (wagers ?q 1)))"
    by (simp add: run_defs sample_defs)
  from T h have "\<not> resolved (wagers ?p 1) \<and> resolved (wagers ?q 1) \<and>
     Wager.winner (wagers ?q 1) = ArbitrationReceipt.winner ?r \<and>
     winningConfidenceBps (wagers ?q 1) = confidenceBps ?r \<and> finalize_count ?q 1 = 1"
    by blast
  with v show ?thesis by (simp add: receipt_def)
qed

text \<open>
  C2. \<^verbatim>\<open>_finalize\<close> pays the whole pot and zeroes the escrow before it calls the token:
  whatever the token is, when \<^verbatim>\<open>_finalize\<close> returns, the token was called once, to
  transfer \<open>stakeA + stakeB\<close> as held before (the sum does not wrap) to the winner, and the
  state it was handed already had both balances at zero and the wager resolved. In a
  reachable state, the \<^verbatim>\<open>submitReceipt\<close> that resolves a wager appends exactly that transfer
  to the calls made; the balances it pays out are the two required stakes, and both balances
  are zero afterwards.
\<close>

theorem finalize_pays_whole_pot:
  "(finalize tk i win conf s0 = Inr s0' \<longrightarrow>
      (\<exists>s2 s3.
         tk (SafeTransfer (token (wagers s0 i)) win (stakeA (wagers s0 i) + stakeB (wagers s0 i))) s2
           = Inr s3 \<and>
         unat (stakeA (wagers s0 i) + stakeB (wagers s0 i))
           = unat (stakeA (wagers s0 i)) + unat (stakeB (wagers s0 i)) \<and>
         stakeA (wagers s2 i) = 0 \<and> stakeB (wagers s2 i) = 0 \<and> resolved (wagers s2 i) \<and>
         Wager.winner (wagers s2 i) = win \<and> calls s2 = calls s0 \<and>
         s0' = emit (Payout i win (stakeA (wagers s0 i) + stakeB (wagers s0 i))) s3)) \<and>
   (s = execs rcv ts (init_state a) \<and> submitReceipt rcv (erc20 ok) r sg s = Inr s' \<and>
    resolved (wagers s' (wagerId r)) \<longrightarrow>
      calls s' = calls s @
        [SafeTransfer (token (wagers s (wagerId r))) (Wager.winner (wagers s' (wagerId r)))
           (stakeA (wagers s (wagerId r)) + stakeB (wagers s (wagerId r)))] \<and>
      last (events s') = Payout (wagerId r) (Wager.winner (wagers s' (wagerId r)))
           (stakeA (wagers s (wagerId r)) + stakeB (wagers s (wagerId r))) \<and>
      stakeA (wagers s (wagerId r)) = stakeARequired (wagers s (wagerId r)) \<and>
      stakeB (wagers s (wagerId r)) = stakeBRequired (wagers s (wagerId r)) \<and>
      unat (stakeA (wagers s (wagerId r)) + stakeB (wagers s (wagerId r)))
        = unat (stakeARequired (wagers s (wagerId r))) + unat (stakeBRequired (wagers s (wagerId r))) \<and>
      stakeA (wagers s' (wagerId r)) = 0 \<and> stakeB (wagers s' (wagerId r)) = 0)"
proof (intro conjI impI)
  assume "finalize tk i win conf s0 = Inr s0'"
  then show "\<exists>s2 s3.
         tk (SafeTransfer (token (wagers s0 i)) win (stakeA (wagers s0 i) + stakeB (wagers s0 i))) s2
           = Inr s3 \<and>
         unat (stakeA (wagers s0 i) + stakeB (wagers s0 i))
           = unat (stakeA (wagers s0 i)) + unat (stakeB (wagers s0 i)) \<and>
         stakeA (wagers s2 i) = 0 \<and> stakeB (wagers s2 i) = 0 \<and> resolved (wagers s2 i) \<and>
         Wager.winner (wagers s2 i) = win \<and> calls s2 = calls s0 \<and>
         s0' = emit (Payout i win (stakeA (wagers s0 i) + stakeB (wagers s0 i))) s3"
  proof -
    let ?s2 = "set_wager i ((wagers s0 i)\<lparr>resolved := True, winner := win,
                  winningConfidenceBps := conf, stakeA := 0, stakeB := 0\<rparr>)
                (emit (Resolved i win conf)
                   (set_wager i ((wagers s0 i)\<lparr>resolved := True, winner := win,
                      winningConfidenceBps := conf\<rparr>) s0))"
    assume "finalize tk i win conf s0 = Inr s0'"
    then obtain s3 where
      "unat (stakeA (wagers s0 i)) + unat (stakeB (wagers s0 i)) < 2 ^ 256"
      "tk (SafeTransfer (token (wagers s0 i)) win (stakeA (wagers s0 i) + stakeB (wagers s0 i))) ?s2
         = Inr s3"
      "s0' = emit (Payout i win (stakeA (wagers s0 i) + stakeB (wagers s0 i))) s3"
      by (auto simp: finalize_def Let_def checked_add_def split: if_splits sum.splits)
    then show ?thesis
      by (intro exI [of _ ?s2] exI [of _ s3]) (simp add: unat_checked)
  qed
next
  assume a: "s = execs rcv ts (init_state a) \<and> submitReceipt rcv (erc20 ok) r sg s = Inr s' \<and>
    resolved (wagers s' (wagerId r))"
  let ?w = "wagers s (wagerId r)"
  from a have se: "s = execs rcv ts (init_state a)"
    and sub: "submitReceipt rcv (erc20 ok) r sg s = Inr s'"
    and res: "resolved (wagers s' (wagerId r))" by blast+
  have i: "inv s" unfolding se by (rule inv_reachable)
  from submitReceipt_fields [OF i sub] obtain signer w2 where
    pre: "created s (wagerId r)" "fundedA ?w" "fundedB ?w" "\<not> resolved ?w"
    and w2: "w2 = (if ArbitrationReceipt.winner r = partyA ?w
          then ?w\<lparr>arbitratorHasVoted := (arbitratorHasVoted ?w)(signer := True),
                 votesForA := votesForA ?w + 1\<rparr>
          else ?w\<lparr>arbitratorHasVoted := (arbitratorHasVoted ?w)(signer := True),
                 votesForB := votesForB ?w + 1\<rparr>)"
    and s': "if unat (m (profile w2)) \<le> unat (votesForA w2) \<or> unat (m (profile w2)) \<le> unat (votesForB w2)
         then ok \<and>
           unat (stakeA ?w) + unat (stakeB ?w) < 2 ^ 256 \<and>
           wagers s' = (wagers s)(wagerId r :=
              w2\<lparr>resolved := True, winner := ArbitrationReceipt.winner r,
                 winningConfidenceBps := confidenceBps r, stakeA := 0, stakeB := 0\<rparr>) \<and>
           events s' = events s @
             [ReceiptAccepted (wagerId r) signer (ArbitrationReceipt.winner r)
                (confidenceBps r) (traceURI r),
              Resolved (wagerId r) (ArbitrationReceipt.winner r) (confidenceBps r),
              Payout (wagerId r) (ArbitrationReceipt.winner r) (stakeA ?w + stakeB ?w)] \<and>
           calls s' = calls s @
             [SafeTransfer (token ?w) (ArbitrationReceipt.winner r) (stakeA ?w + stakeB ?w)]
         else wagers s' = (wagers s)(wagerId r := w2) \<and>
           events s' = events s @
             [ReceiptAccepted (wagerId r) signer (ArbitrationReceipt.winner r)
                (confidenceBps r) (traceURI r)] \<and>
           calls s' = calls s"
    by blast
  have "resolved w2 = resolved ?w" using w2 by (simp split: if_splits)
  with res pre(4) s'
  have fin: "unat (m (profile w2)) \<le> unat (votesForA w2) \<or> unat (m (profile w2)) \<le> unat (votesForB w2)"
    by (auto split: if_splits)
  have snd: "sound ?w" using i pre(1) by (rule invD_sound)
  then have st: "stakeA ?w = stakeARequired ?w" "stakeB ?w = stakeBRequired ?w"
    using pre by (simp_all add: sound_def)
  from fin s' have ov: "unat (stakeA ?w) + unat (stakeB ?w) < 2 ^ 256"
    and ws: "wagers s' (wagerId r) = w2\<lparr>resolved := True, winner := ArbitrationReceipt.winner r,
                 winningConfidenceBps := confidenceBps r, stakeA := 0, stakeB := 0\<rparr>"
    and ev: "events s' = events s @
             [ReceiptAccepted (wagerId r) signer (ArbitrationReceipt.winner r)
                (confidenceBps r) (traceURI r),
              Resolved (wagerId r) (ArbitrationReceipt.winner r) (confidenceBps r),
              Payout (wagerId r) (ArbitrationReceipt.winner r) (stakeA ?w + stakeB ?w)]"
    and ca: "calls s' = calls s @
             [SafeTransfer (token ?w) (ArbitrationReceipt.winner r) (stakeA ?w + stakeB ?w)]"
    by simp_all
  show "calls s' = calls s @
        [SafeTransfer (token ?w) (Wager.winner (wagers s' (wagerId r))) (stakeA ?w + stakeB ?w)]"
    by (simp add: ca ws)
  show "last (events s') = Payout (wagerId r) (Wager.winner (wagers s' (wagerId r)))
           (stakeA ?w + stakeB ?w)"
    by (simp add: ev ws)
  show "stakeA ?w = stakeARequired ?w" "stakeB ?w = stakeBRequired ?w" by (rule st)+
  show "unat (stakeA ?w + stakeB ?w) = unat (stakeARequired ?w) + unat (stakeBRequired ?w)"
    using unat_checked [OF ov] st by simp
  show "stakeA (wagers s' (wagerId r)) = 0" "stakeB (wagers s' (wagerId r)) = 0"
    by (simp_all add: ws)
qed

theorem finalize_pays_whole_pot_witness:
  "(\<exists>s2 s3. erc20 True (SafeTransfer 99 10 200) s2 = Inr s3 \<and>
       stakeA (wagers s2 1) = 0 \<and> stakeB (wagers s2 1) = 0 \<and> resolved (wagers s2 1)) \<and>
   calls (execs first_byte_signer resolved_2of3 (init_state 77))
     = calls (execs first_byte_signer one_vote_2of3 (init_state 77)) @ [SafeTransfer 99 10 200] \<and>
   stakeA (wagers (execs first_byte_signer resolved_2of3 (init_state 77)) 1) = 0 \<and>
   stakeB (wagers (execs first_byte_signer resolved_2of3 (init_state 77)) 1) = 0"
proof -
  let ?f = "execs first_byte_signer funded_2of3 (init_state 77)"
  let ?p = "execs first_byte_signer one_vote_2of3 (init_state 77)"
  let ?q = "execs first_byte_signer resolved_2of3 (init_state 77)"
  let ?r = "receipt 10 8500"
  have "\<exists>s0'. finalize (erc20 True) 1 10 9000 ?f = Inr s0'"
    by (simp add: finalize_Inr) (simp add: run_defs sample_defs)
  then obtain s0' where f: "finalize (erc20 True) 1 10 9000 ?f = Inr s0'" ..
  have v: "token (wagers ?f 1) = 99" "stakeA (wagers ?f 1) + stakeB (wagers ?f 1) = 200"
    "token (wagers ?p 1) = 99" "stakeA (wagers ?p 1) + stakeB (wagers ?p 1) = 200"
    "Wager.winner (wagers ?q 1) = 10" "wagerId ?r = 1"
    by (simp_all add: run_defs sample_defs)
  have h: "?p = execs first_byte_signer one_vote_2of3 (init_state 77) \<and>
     submitReceipt first_byte_signer (erc20 True) ?r [2] ?p = Inr ?q \<and>
     resolved (wagers ?q (wagerId ?r))"
    by (simp add: run_defs sample_defs)
  note T = finalize_pays_whole_pot [where tk = "erc20 True" and i = 1 and win = 10
     and conf = 9000 and ?s0.0 = ?f and s0' = s0' and s = ?p and rcv = first_byte_signer
     and ts = one_vote_2of3 and a = 77 and ok = True and r = ?r and sg = "[2]" and s' = ?q]
  from T f have "\<exists>s2 s3. erc20 True (SafeTransfer (token (wagers ?f 1)) 10
           (stakeA (wagers ?f 1) + stakeB (wagers ?f 1))) s2 = Inr s3 \<and>
       stakeA (wagers s2 1) = 0 \<and> stakeB (wagers s2 1) = 0 \<and> resolved (wagers s2 1)"
    by blast
  moreover from T h have "calls ?q = calls ?p @
        [SafeTransfer (token (wagers ?p (wagerId ?r))) (Wager.winner (wagers ?q (wagerId ?r)))
           (stakeA (wagers ?p (wagerId ?r)) + stakeB (wagers ?p (wagerId ?r)))] \<and>
      stakeA (wagers ?q (wagerId ?r)) = 0 \<and> stakeB (wagers ?q (wagerId ?r)) = 0"
    by blast
  ultimately show ?thesis by (simp add: v)
qed

text \<open>
  C3, as the code has it. The checks of \<^verbatim>\<open>submitReceipt\<close> run in the order of the
  specification, with the recovery of the signer between the third and the fourth. The three
  checks on the wager come first and decide the error whatever the signature is. On an
  existing, funded, unresolved wager, a signature that recovers to no address makes the call
  fail inside \<^verbatim>\<open>ECDSA.recover\<close>, with the library's error and with none of the contract's
  own, whatever the receipt says. When the signature recovers to a signer, the call fails
  with exactly the error that \<open>first_violated\<close> names for that signer, and when no check is
  violated it fails with none of the contract's own errors.
\<close>

theorem submitReceipt_check_order:
  "(rcv r sg = Some signer \<and> first_violated (wagers s (wagerId r)) signer r = Some e
      \<longrightarrow> submitReceipt rcv tk r sg s = Inl e) \<and>
   (first_violated (wagers s (wagerId r)) signer r = Some e \<and>
      e \<in> {InvalidParams, NotFunded, AlreadyResolved}
      \<longrightarrow> submitReceipt rcv tk r sg s = Inl e) \<and>
   (rcv r sg = None \<and> partyA (wagers s (wagerId r)) \<noteq> 0 \<and>
    fundedA (wagers s (wagerId r)) \<and> fundedB (wagers s (wagerId r)) \<and>
    \<not> resolved (wagers s (wagerId r))
      \<longrightarrow> submitReceipt rcv tk r sg s = Inl ECDSAInvalidSignature) \<and>
   (rcv r sg = Some signer \<and> first_violated (wagers s (wagerId r)) signer r = None
      \<longrightarrow> submitReceipt rcv (erc20 ok) r sg s \<notin> Inl ` {NotParty, InvalidParams, AlreadyFunded,
            NotFunded, AlreadyResolved, NotArbitrator, DuplicateReceipt, ConfidenceTooLow,
            UnknownWinner})"
proof (intro conjI impI)
  assume "rcv r sg = Some signer \<and> first_violated (wagers s (wagerId r)) signer r = Some e"
  then show "submitReceipt rcv tk r sg s = Inl e"
    by (auto simp: first_violated_def submitReceipt_def Let_def split: if_splits)
next
  assume "first_violated (wagers s (wagerId r)) signer r = Some e \<and>
      e \<in> {InvalidParams, NotFunded, AlreadyResolved}"
  then show "submitReceipt rcv tk r sg s = Inl e"
    by (auto simp: first_violated_def submitReceipt_def Let_def split: if_splits)
next
  assume "rcv r sg = None \<and> partyA (wagers s (wagerId r)) \<noteq> 0 \<and>
    fundedA (wagers s (wagerId r)) \<and> fundedB (wagers s (wagerId r)) \<and>
    \<not> resolved (wagers s (wagerId r))"
  then show "submitReceipt rcv tk r sg s = Inl ECDSAInvalidSignature"
    by (simp add: submitReceipt_def Let_def)
next
  assume a: "rcv r sg = Some signer \<and> first_violated (wagers s (wagerId r)) signer r = None"
  then have pre: "rcv r sg = Some signer" "partyA (wagers s (wagerId r)) \<noteq> 0"
      "fundedA (wagers s (wagerId r))" "fundedB (wagers s (wagerId r))"
      "\<not> resolved (wagers s (wagerId r))"
      "isArbitrator (profile (wagers s (wagerId r))) signer"
      "\<not> arbitratorHasVoted (wagers s (wagerId r)) signer"
      "unat (confidenceThresholdBps (profile (wagers s (wagerId r)))) \<le> unat (confidenceBps r)"
      "ArbitrationReceipt.winner r = partyA (wagers s (wagerId r)) \<or>
       ArbitrationReceipt.winner r = partyB (wagers s (wagerId r))"
    by (auto simp: first_violated_def split: if_splits)
  show "submitReceipt rcv (erc20 ok) r sg s \<notin> Inl ` {NotParty, InvalidParams, AlreadyFunded,
            NotFunded, AlreadyResolved, NotArbitrator, DuplicateReceipt, ConfidenceTooLow,
            UnknownWinner}"
    unfolding submitReceipt_step [of rcv r sg signer s "erc20 ok", OF pre]
    using pre(5)
    by (auto simp: Let_def finalize_def erc20_def checked_add_def)
qed

theorem submitReceipt_check_order_witness:
  "submitReceipt first_byte_signer (erc20 True) (receipt 12 7000) [1]
     (execs first_byte_signer funded_2of3 (init_state 77)) = Inl ConfidenceTooLow \<and>
   submitReceipt first_byte_signer (erc20 True) (receipt 12 7000) [] (init_state 77)
     = Inl InvalidParams \<and>
   submitReceipt first_byte_signer (erc20 True) (receipt 10 9000) []
     (execs first_byte_signer funded_2of3 (init_state 77)) = Inl ECDSAInvalidSignature \<and>
   submitReceipt first_byte_signer (erc20 True) (receipt 10 9000) [1]
     (execs first_byte_signer funded_2of3 (init_state 77))
     \<notin> Inl ` {NotParty, InvalidParams, AlreadyFunded, NotFunded, AlreadyResolved,
              NotArbitrator, DuplicateReceipt, ConfidenceTooLow, UnknownWinner}"
proof -
  let ?s = "execs first_byte_signer funded_2of3 (init_state 77)"
  have 1: "first_byte_signer (receipt 12 7000) [1] = Some 1 \<and>
           first_violated (wagers ?s (wagerId (receipt 12 7000))) 1 (receipt 12 7000)
             = Some ConfidenceTooLow"
    by (simp add: run_defs sample_defs first_violated_def)
  have 2: "first_violated (wagers (init_state 77) (wagerId (receipt 12 7000))) 1 (receipt 12 7000)
             = Some InvalidParams \<and>
           InvalidParams \<in> {InvalidParams, NotFunded, AlreadyResolved}"
    by (simp add: run_defs sample_defs first_violated_def)
  have 3: "first_byte_signer (receipt 10 9000) [1] = Some 1 \<and>
           first_violated (wagers ?s (wagerId (receipt 10 9000))) 1 (receipt 10 9000) = None"
    by (simp add: run_defs sample_defs first_violated_def)
  from submitReceipt_check_order [of first_byte_signer "receipt 12 7000" "[1]" 1 ?s
         ConfidenceTooLow "erc20 True" True] 1
  have a: "submitReceipt first_byte_signer (erc20 True) (receipt 12 7000) [1] ?s
             = Inl ConfidenceTooLow" by blast
  from submitReceipt_check_order [of first_byte_signer "receipt 12 7000" "[]" 1 "init_state 77"
         InvalidParams "erc20 True" True] 2
  have b: "submitReceipt first_byte_signer (erc20 True) (receipt 12 7000) [] (init_state 77)
             = Inl InvalidParams" by blast
  from submitReceipt_check_order [of first_byte_signer "receipt 10 9000" "[1]" 1 ?s
         e "erc20 True" True for e] 3
  have c: "submitReceipt first_byte_signer (erc20 True) (receipt 10 9000) [1] ?s
     \<notin> Inl ` {NotParty, InvalidParams, AlreadyFunded, NotFunded, AlreadyResolved,
              NotArbitrator, DuplicateReceipt, ConfidenceTooLow, UnknownWinner}" by blast
  have 4: "first_byte_signer (receipt 10 9000) [] = None \<and>
           partyA (wagers ?s (wagerId (receipt 10 9000))) \<noteq> 0 \<and>
           fundedA (wagers ?s (wagerId (receipt 10 9000))) \<and>
           fundedB (wagers ?s (wagerId (receipt 10 9000))) \<and>
           \<not> resolved (wagers ?s (wagerId (receipt 10 9000)))"
    by (simp add: run_defs sample_defs)
  from submitReceipt_check_order [of first_byte_signer "receipt 10 9000" "[]" 1 ?s
         e "erc20 True" True for e] 4
  have d: "submitReceipt first_byte_signer (erc20 True) (receipt 10 9000) [] ?s
             = Inl ECDSAInvalidSignature" by blast
  from a b c d show ?thesis by blast
qed

theorem submitReceipt_check_order_counterexample:
  "partyA (wagers (execs first_byte_signer funded_2of3 (init_state 77)) 1) \<noteq> 0 \<and>
   fundedA (wagers (execs first_byte_signer funded_2of3 (init_state 77)) 1) \<and>
   fundedB (wagers (execs first_byte_signer funded_2of3 (init_state 77)) 1) \<and>
   \<not> resolved (wagers (execs first_byte_signer funded_2of3 (init_state 77)) 1) \<and>
   unat (confidenceBps (receipt 10 7000))
     < unat (confidenceThresholdBps (profile
         (wagers (execs first_byte_signer funded_2of3 (init_state 77)) 1))) \<and>
   first_violated (wagers (execs first_byte_signer funded_2of3 (init_state 77)) 1) 1
     (receipt 10 7000) = Some ConfidenceTooLow \<and>
   first_violated (wagers (execs first_byte_signer funded_2of3 (init_state 77)) 1) 9
     (receipt 10 7000) = Some NotArbitrator \<and>
   submitReceipt first_byte_signer (erc20 True) (receipt 10 7000) []
     (execs first_byte_signer funded_2of3 (init_state 77)) = Inl ECDSAInvalidSignature \<and>
   submitReceipt first_byte_signer (erc20 True) (receipt 10 7000) []
     (execs first_byte_signer funded_2of3 (init_state 77))
     \<notin> Inl ` {NotParty, InvalidParams, AlreadyFunded, NotFunded, AlreadyResolved,
              NotArbitrator, DuplicateReceipt, ConfidenceTooLow, UnknownWinner}"
  by (simp add: run_defs sample_defs first_violated_def)

text \<open>
  C4, as the code has it. In every reachable state the two vote counts of a wager add up to
  at most the number of entries of its arbitrator list, and hence to at most the stored
  panel size \<open>n\<close> when the list has at most 255 entries. A receipt whose signature recovers
  to an identity that has already voted on the wager is rejected, whatever the token does:
  with \<open>DuplicateReceipt\<close> while the wager is unresolved and with \<open>AlreadyResolved\<close> once
  it is resolved. An accepted receipt comes from an identity that had not voted, marks it,
  and adds exactly one to the sum of the two counts.
\<close>

theorem one_vote_per_arbitrator:
  assumes "s = execs rcv ts (init_state a)"
  shows "unat (votesForA (wagers s i)) + unat (votesForB (wagers s i))
           \<le> length (arbitrators (profile (wagers s i))) \<and>
    (length (arbitrators (profile (wagers s i))) \<le> 255 \<longrightarrow>
       unat (votesForA (wagers s i)) + unat (votesForB (wagers s i))
         \<le> unat (n (profile (wagers s i)))) \<and>
    (rcv r sg = Some signer \<and> arbitratorHasVoted (wagers s (wagerId r)) signer \<longrightarrow>
       submitReceipt rcv tk r sg s =
         Inl (if resolved (wagers s (wagerId r)) then AlreadyResolved else DuplicateReceipt)) \<and>
    (submitReceipt rcv (erc20 ok) r sg s = Inr s' \<longrightarrow>
       (\<exists>v. rcv r sg = Some v \<and> \<not> arbitratorHasVoted (wagers s (wagerId r)) v \<and>
            arbitratorHasVoted (wagers s' (wagerId r)) v \<and>
            unat (votesForA (wagers s' (wagerId r))) + unat (votesForB (wagers s' (wagerId r)))
              = unat (votesForA (wagers s (wagerId r))) + unat (votesForB (wagers s (wagerId r))) + 1))"
proof -
  have i: "inv s" unfolding assms(1) by (rule inv_reachable)
  have 1: "unat (votesForA (wagers s i)) + unat (votesForB (wagers s i))
           \<le> length (arbitrators (profile (wagers s i)))"
  proof (cases "created s i")
    case True
    with i have snd: "sound (wagers s i)" by (rule invD_sound)
    then have "{v. arbitratorHasVoted (wagers s i) v} \<subseteq> set (arbitrators (profile (wagers s i)))"
      by (auto simp: sound_def)
    then have "card {v. arbitratorHasVoted (wagers s i) v}
                 \<le> card (set (arbitrators (profile (wagers s i))))"
      by (intro card_mono) simp_all
    also have "\<dots> \<le> length (arbitrators (profile (wagers s i)))" by (rule card_length)
    finally show ?thesis using snd by (simp add: sound_def)
  next
    case False
    with i have "fresh (wagers s i)" by (rule invD_fresh)
    then show ?thesis by (simp add: fresh_def)
  qed
  have 2: "unat (votesForA (wagers s i)) + unat (votesForB (wagers s i))
         \<le> unat (n (profile (wagers s i)))"
    if l: "length (arbitrators (profile (wagers s i))) \<le> 255"
  proof (cases "created s i")
    case True
    with i have snd: "sound (wagers s i)" by (rule invD_sound)
    then have "n (profile (wagers s i)) = of_nat (length (arbitrators (profile (wagers s i))))"
      by (simp add: sound_def)
    then have "unat (n (profile (wagers s i))) = length (arbitrators (profile (wagers s i)))"
      using l by (simp add: unat_of_nat)
    with 1 show ?thesis by simp
  next
    case False
    with i have "fresh (wagers s i)" by (rule invD_fresh)
    then show ?thesis by (simp add: fresh_def)
  qed
  have 3: "submitReceipt rcv tk r sg s =
         Inl (if resolved (wagers s (wagerId r)) then AlreadyResolved else DuplicateReceipt)"
    if v: "rcv r sg = Some signer" "arbitratorHasVoted (wagers s (wagerId r)) signer"
  proof -
    have c: "created s (wagerId r)"
    proof (rule ccontr)
      assume "\<not> created s (wagerId r)"
      with i have "fresh (wagers s (wagerId r))" by (rule invD_fresh)
      with v(2) show False by (simp add: fresh_def)
    qed
    with i have "sound (wagers s (wagerId r))" by (rule invD_sound)
    with v(2) have "isArbitrator (profile (wagers s (wagerId r))) signer"
      "fundedA (wagers s (wagerId r))" "fundedB (wagers s (wagerId r))"
      "partyA (wagers s (wagerId r)) \<noteq> 0"
      by (auto simp: sound_def)
    with v show ?thesis by (simp add: submitReceipt_def Let_def)
  qed
  have 4: "\<exists>v. rcv r sg = Some v \<and> \<not> arbitratorHasVoted (wagers s (wagerId r)) v \<and>
            arbitratorHasVoted (wagers s' (wagerId r)) v \<and>
            unat (votesForA (wagers s' (wagerId r))) + unat (votesForB (wagers s' (wagerId r)))
              = unat (votesForA (wagers s (wagerId r))) + unat (votesForB (wagers s (wagerId r))) + 1"
    if sub: "submitReceipt rcv (erc20 ok) r sg s = Inr s'"
  proof -
    let ?w = "wagers s (wagerId r)"
    from submitReceipt_fields [OF i sub] obtain v w2 where
      pre: "rcv r sg = Some v" "\<not> arbitratorHasVoted ?w v"
      and w2: "w2 = (if ArbitrationReceipt.winner r = partyA ?w
          then ?w\<lparr>arbitratorHasVoted := (arbitratorHasVoted ?w)(v := True),
                 votesForA := votesForA ?w + 1\<rparr>
          else ?w\<lparr>arbitratorHasVoted := (arbitratorHasVoted ?w)(v := True),
                 votesForB := votesForB ?w + 1\<rparr>)"
      and ov: "if ArbitrationReceipt.winner r = partyA ?w
         then unat (votesForA ?w) + 1 < 2 ^ 256
         else unat (votesForB ?w) + 1 < 2 ^ 256"
      and s': "if unat (m (profile w2)) \<le> unat (votesForA w2) \<or> unat (m (profile w2)) \<le> unat (votesForB w2)
         then ok \<and>
           unat (stakeA ?w) + unat (stakeB ?w) < 2 ^ 256 \<and>
           wagers s' = (wagers s)(wagerId r :=
              w2\<lparr>resolved := True, winner := ArbitrationReceipt.winner r,
                 winningConfidenceBps := confidenceBps r, stakeA := 0, stakeB := 0\<rparr>) \<and>
           events s' = events s @
             [ReceiptAccepted (wagerId r) v (ArbitrationReceipt.winner r)
                (confidenceBps r) (traceURI r),
              Resolved (wagerId r) (ArbitrationReceipt.winner r) (confidenceBps r),
              Payout (wagerId r) (ArbitrationReceipt.winner r) (stakeA ?w + stakeB ?w)] \<and>
           calls s' = calls s @
             [SafeTransfer (token ?w) (ArbitrationReceipt.winner r) (stakeA ?w + stakeB ?w)]
         else wagers s' = (wagers s)(wagerId r := w2) \<and>
           events s' = events s @
             [ReceiptAccepted (wagerId r) v (ArbitrationReceipt.winner r)
                (confidenceBps r) (traceURI r)] \<and>
           calls s' = calls s"
      by blast
    have a: "arbitratorHasVoted (wagers s' (wagerId r)) v"
      and b: "votesForA (wagers s' (wagerId r)) = votesForA w2"
      and c: "votesForB (wagers s' (wagerId r)) = votesForB w2"
      using s' w2 by (auto split: if_splits)
    have "unat (votesForA w2) + unat (votesForB w2) = unat (votesForA ?w) + unat (votesForB ?w) + 1"
      using w2 ov by (auto simp: unat_inc split: if_splits)
    with pre a b c show ?thesis by auto
  qed
  from 1 2 3 4 show ?thesis by blast
qed

theorem one_vote_per_arbitrator_witness:
  "unat (votesForA (wagers (execs first_byte_signer one_vote_2of3 (init_state 77)) 1)) +
     unat (votesForB (wagers (execs first_byte_signer one_vote_2of3 (init_state 77)) 1)) \<le> 3 \<and>
   submitReceipt first_byte_signer (erc20 True) (receipt 10 9000) [1]
     (execs first_byte_signer one_vote_2of3 (init_state 77)) = Inl DuplicateReceipt \<and>
   (\<exists>v. first_byte_signer (receipt 10 8500) [2] = Some v \<and>
      \<not> arbitratorHasVoted (wagers (execs first_byte_signer one_vote_2of3 (init_state 77)) 1) v \<and>
      arbitratorHasVoted (wagers (execs first_byte_signer resolved_2of3 (init_state 77)) 1) v)"
proof -
  let ?p = "execs first_byte_signer one_vote_2of3 (init_state 77)"
  let ?q = "execs first_byte_signer resolved_2of3 (init_state 77)"
  note T = one_vote_per_arbitrator [where s = ?p and rcv = first_byte_signer
     and ts = one_vote_2of3 and a = 77 and i = 1, OF refl]
  have v: "length (arbitrators (profile (wagers ?p 1))) = 3" "n (profile (wagers ?p 1)) = 3"
    "wagerId (receipt 10 9000) = 1" "wagerId (receipt 10 8500) = 1" "\<not> resolved (wagers ?p 1)"
    by (simp_all add: run_defs sample_defs)
  have 1: "unat (votesForA (wagers ?p 1)) + unat (votesForB (wagers ?p 1)) \<le> 3"
    using T [where r = "receipt 10 9000" and sg = "[1]" and signer = 1 and tk = "erc20 True"
               and ok = True and s' = ?q] v
    by simp
  have d: "first_byte_signer (receipt 10 9000) [1] = Some 1 \<and>
           arbitratorHasVoted (wagers ?p (wagerId (receipt 10 9000))) 1"
    by (simp add: run_defs sample_defs)
  have 2: "submitReceipt first_byte_signer (erc20 True) (receipt 10 9000) [1] ?p
             = Inl DuplicateReceipt"
    using T [where r = "receipt 10 9000" and sg = "[1]" and signer = 1 and tk = "erc20 True"
               and ok = True and s' = ?q] d v
    by simp
  have a: "submitReceipt first_byte_signer (erc20 True) (receipt 10 8500) [2] ?p = Inr ?q"
    by (simp add: run_defs sample_defs)
  have 3: "\<exists>v. first_byte_signer (receipt 10 8500) [2] = Some v \<and>
      \<not> arbitratorHasVoted (wagers ?p 1) v \<and> arbitratorHasVoted (wagers ?q 1) v"
    using T [where r = "receipt 10 8500" and sg = "[2]" and signer = 2 and tk = "erc20 True"
               and ok = True and s' = ?q] a v
    by auto
  from 1 2 3 show ?thesis by blast
qed

theorem one_vote_per_arbitrator_counterexample:
  "first_byte_signer (receipt 10 9000) [1] = Some 1 \<and>
   arbitratorHasVoted
     (wagers (execs first_byte_signer resolved_1of256 (init_state 77)) 1) 1 \<and>
   submitReceipt first_byte_signer (erc20 True) (receipt 10 9000) [1]
     (execs first_byte_signer resolved_1of256 (init_state 77)) = Inl AlreadyResolved \<and>
   submitReceipt first_byte_signer (erc20 True) (receipt 10 9000) [1]
     (execs first_byte_signer resolved_1of256 (init_state 77)) \<noteq> Inl DuplicateReceipt \<and>
   length (arbitrators (profile
     (wagers (execs first_byte_signer resolved_1of256 (init_state 77)) 1))) = 256 \<and>
   n (profile (wagers (execs first_byte_signer resolved_1of256 (init_state 77)) 1)) = 0 \<and>
   votesForA (wagers (execs first_byte_signer resolved_1of256 (init_state 77)) 1) = 1 \<and>
   \<not> unat (votesForA (wagers (execs first_byte_signer resolved_1of256 (init_state 77)) 1)) +
       unat (votesForB (wagers (execs first_byte_signer resolved_1of256 (init_state 77)) 1))
     \<le> unat (n (profile (wagers (execs first_byte_signer resolved_1of256 (init_state 77)) 1)))"
  by (simp add: run_defs first_byte_signer_def receipt_def resolved_1of256_def panel256_simps)

text \<open>
  C5. A receipt below the wager's confidence threshold, from an arbitrator who has not voted,
  is rejected with \<open>ConfidenceTooLow\<close>, whatever the token does. The rejected call, like
  every call that fails, leaves the whole state as it was: the arbitrator is not marked and
  no count moves. A later receipt of the same arbitrator that meets the threshold and names
  a party is accepted when the token honours the payout and no counter overflows; it marks
  the arbitrator and adds one vote to the side it names.
\<close>

theorem low_confidence_rejected_without_effect:
  assumes "partyA (wagers s (wagerId r)) \<noteq> 0"
    and "fundedA (wagers s (wagerId r))" and "fundedB (wagers s (wagerId r))"
    and "\<not> resolved (wagers s (wagerId r))"
    and "rcv r sg = Some signer"
    and "isArbitrator (profile (wagers s (wagerId r))) signer"
    and "\<not> arbitratorHasVoted (wagers s (wagerId r)) signer"
    and "unat (confidenceBps r) < unat (confidenceThresholdBps (profile (wagers s (wagerId r))))"
  shows "submitReceipt rcv tk r sg s = Inl ConfidenceTooLow \<and>
    exec rcv (SubmitReceipt r sg ok) s = s \<and>
    (\<forall>t e. run rcv t s = Inl e \<longrightarrow> exec rcv t s = s) \<and>
    (\<forall>r2 sg2.
       rcv r2 sg2 = Some signer \<and> wagerId r2 = wagerId r \<and>
       unat (confidenceThresholdBps (profile (wagers s (wagerId r)))) \<le> unat (confidenceBps r2) \<and>
       (ArbitrationReceipt.winner r2 = partyA (wagers s (wagerId r)) \<or>
        ArbitrationReceipt.winner r2 = partyB (wagers s (wagerId r))) \<and>
       unat (stakeA (wagers s (wagerId r))) + unat (stakeB (wagers s (wagerId r))) < 2 ^ 256 \<and>
       unat (votesForA (wagers s (wagerId r))) + 1 < 2 ^ 256 \<and>
       unat (votesForB (wagers s (wagerId r))) + 1 < 2 ^ 256
       \<longrightarrow> (\<exists>s'. submitReceipt rcv (erc20 True) r2 sg2 (exec rcv (SubmitReceipt r sg ok) s) = Inr s' \<and>
              arbitratorHasVoted (wagers s' (wagerId r)) signer \<and>
              (if ArbitrationReceipt.winner r2 = partyA (wagers s (wagerId r))
               then votesForA (wagers s' (wagerId r)) = votesForA (wagers s (wagerId r)) + 1 \<and>
                    votesForB (wagers s' (wagerId r)) = votesForB (wagers s (wagerId r))
               else votesForA (wagers s' (wagerId r)) = votesForA (wagers s (wagerId r)) \<and>
                    votesForB (wagers s' (wagerId r)) = votesForB (wagers s (wagerId r)) + 1)))"
proof -
  have low: "submitReceipt rcv tk' r sg s = Inl ConfidenceTooLow" for tk'
    using assms by (simp add: submitReceipt_def Let_def)
  have same: "exec rcv (SubmitReceipt r sg ok) s = s"
    by (simp add: exec_def low)
  have revert: "\<forall>t e. run rcv t s = Inl e \<longrightarrow> exec rcv t s = s"
    by (simp add: exec_def)
  have again: "\<exists>s'. submitReceipt rcv (erc20 True) r2 sg2 s = Inr s' \<and>
              arbitratorHasVoted (wagers s' (wagerId r)) signer \<and>
              (if ArbitrationReceipt.winner r2 = partyA (wagers s (wagerId r))
               then votesForA (wagers s' (wagerId r)) = votesForA (wagers s (wagerId r)) + 1 \<and>
                    votesForB (wagers s' (wagerId r)) = votesForB (wagers s (wagerId r))
               else votesForA (wagers s' (wagerId r)) = votesForA (wagers s (wagerId r)) \<and>
                    votesForB (wagers s' (wagerId r)) = votesForB (wagers s (wagerId r)) + 1)"
    if q: "rcv r2 sg2 = Some signer" "wagerId r2 = wagerId r"
       "unat (confidenceThresholdBps (profile (wagers s (wagerId r)))) \<le> unat (confidenceBps r2)"
       "ArbitrationReceipt.winner r2 = partyA (wagers s (wagerId r)) \<or>
        ArbitrationReceipt.winner r2 = partyB (wagers s (wagerId r))"
       "unat (stakeA (wagers s (wagerId r))) + unat (stakeB (wagers s (wagerId r))) < 2 ^ 256"
       "unat (votesForA (wagers s (wagerId r))) + 1 < 2 ^ 256"
       "unat (votesForB (wagers s (wagerId r))) + 1 < 2 ^ 256"
    for r2 sg2
  proof -
    have pre: "rcv r2 sg2 = Some signer" "partyA (wagers s (wagerId r2)) \<noteq> 0"
      "fundedA (wagers s (wagerId r2))" "fundedB (wagers s (wagerId r2))"
      "\<not> resolved (wagers s (wagerId r2))"
      "isArbitrator (profile (wagers s (wagerId r2))) signer"
      "\<not> arbitratorHasVoted (wagers s (wagerId r2)) signer"
      "unat (confidenceThresholdBps (profile (wagers s (wagerId r2)))) \<le> unat (confidenceBps r2)"
      "ArbitrationReceipt.winner r2 = partyA (wagers s (wagerId r2)) \<or>
       ArbitrationReceipt.winner r2 = partyB (wagers s (wagerId r2))"
      using assms q by simp_all
    show ?thesis
      unfolding submitReceipt_step [of rcv r2 sg2 signer s "erc20 True", OF pre]
      using q pre(5)
      by (auto simp: Let_def finalize_def erc20_def checked_add_def)
  qed
  show ?thesis
    unfolding same using low revert again by blast
qed

theorem low_confidence_rejected_without_effect_witness:
  "submitReceipt first_byte_signer (erc20 True) (receipt 10 7000) [1]
     (execs first_byte_signer funded_2of3 (init_state 77)) = Inl ConfidenceTooLow \<and>
   exec first_byte_signer (SubmitReceipt (receipt 10 7000) [1] True)
     (execs first_byte_signer funded_2of3 (init_state 77))
     = execs first_byte_signer funded_2of3 (init_state 77) \<and>
   (\<exists>s'. submitReceipt first_byte_signer (erc20 True) (receipt 10 9000) [1]
            (exec first_byte_signer (SubmitReceipt (receipt 10 7000) [1] True)
               (execs first_byte_signer funded_2of3 (init_state 77))) = Inr s' \<and>
         arbitratorHasVoted (wagers s' 1) 1 \<and> votesForA (wagers s' 1) = 1 \<and>
         votesForB (wagers s' 1) = 0)"
proof -
  let ?fs = "execs first_byte_signer funded_2of3 (init_state 77)"
  let ?lo = "receipt 10 7000"
  let ?hi = "receipt 10 9000"
  have h: "partyA (wagers ?fs (wagerId ?lo)) \<noteq> 0"
    "fundedA (wagers ?fs (wagerId ?lo))" "fundedB (wagers ?fs (wagerId ?lo))"
    "\<not> resolved (wagers ?fs (wagerId ?lo))"
    "first_byte_signer ?lo [1] = Some 1"
    "isArbitrator (profile (wagers ?fs (wagerId ?lo))) 1"
    "\<not> arbitratorHasVoted (wagers ?fs (wagerId ?lo)) 1"
    "unat (confidenceBps ?lo) < unat (confidenceThresholdBps (profile (wagers ?fs (wagerId ?lo))))"
    by (simp_all add: run_defs sample_defs)
  note T = low_confidence_rejected_without_effect
    [where s = ?fs and r = ?lo and rcv = first_byte_signer and sg = "[1]" and signer = 1
       and tk = "erc20 True" and ok = True, OF h]
  have q: "first_byte_signer ?hi [1] = Some 1 \<and> wagerId ?hi = wagerId ?lo \<and>
       unat (confidenceThresholdBps (profile (wagers ?fs (wagerId ?lo)))) \<le> unat (confidenceBps ?hi) \<and>
       (ArbitrationReceipt.winner ?hi = partyA (wagers ?fs (wagerId ?lo)) \<or>
        ArbitrationReceipt.winner ?hi = partyB (wagers ?fs (wagerId ?lo))) \<and>
       unat (stakeA (wagers ?fs (wagerId ?lo))) + unat (stakeB (wagers ?fs (wagerId ?lo))) < 2 ^ 256 \<and>
       unat (votesForA (wagers ?fs (wagerId ?lo))) + 1 < 2 ^ 256 \<and>
       unat (votesForB (wagers ?fs (wagerId ?lo))) + 1 < 2 ^ 256"
    by (simp add: run_defs sample_defs)
  have v: "wagerId ?lo = 1" "ArbitrationReceipt.winner ?hi = partyA (wagers ?fs 1)"
    "votesForA (wagers ?fs 1) = 0" "votesForB (wagers ?fs 1) = 0"
    by (simp_all add: run_defs sample_defs)
  from T q have "\<exists>s'. submitReceipt first_byte_signer (erc20 True) ?hi [1]
            (exec first_byte_signer (SubmitReceipt ?lo [1] True) ?fs) = Inr s' \<and>
         arbitratorHasVoted (wagers s' (wagerId ?lo)) 1 \<and>
         (if ArbitrationReceipt.winner ?hi = partyA (wagers ?fs (wagerId ?lo))
          then votesForA (wagers s' (wagerId ?lo)) = votesForA (wagers ?fs (wagerId ?lo)) + 1 \<and>
               votesForB (wagers s' (wagerId ?lo)) = votesForB (wagers ?fs (wagerId ?lo))
          else votesForA (wagers s' (wagerId ?lo)) = votesForA (wagers ?fs (wagerId ?lo)) \<and>
               votesForB (wagers s' (wagerId ?lo)) = votesForB (wagers ?fs (wagerId ?lo)) + 1)"
    by blast
  then have "\<exists>s'. submitReceipt first_byte_signer (erc20 True) ?hi [1]
            (exec first_byte_signer (SubmitReceipt ?lo [1] True) ?fs) = Inr s' \<and>
         arbitratorHasVoted (wagers s' 1) 1 \<and> votesForA (wagers s' 1) = 1 \<and>
         votesForB (wagers s' 1) = 0"
    by (simp add: v)
  with T show ?thesis by blast
qed

text \<open>
  C6. On an existing, fully funded, unresolved wager, a receipt whose signature recovers to
  an address that is not in the wager's arbitrator list is rejected with \<open>NotArbitrator\<close>,
  whatever the token does and whoever the recovered address is.
\<close>

theorem submitReceipt_outsider_NotArbitrator:
  assumes "s = execs rcv ts (init_state a)"
    and "partyA (wagers s (wagerId r)) \<noteq> 0"
    and "fundedA (wagers s (wagerId r))" and "fundedB (wagers s (wagerId r))"
    and "\<not> resolved (wagers s (wagerId r))"
    and "rcv r sg = Some signer"
    and "signer \<notin> set (arbitrators (profile (wagers s (wagerId r))))"
  shows "submitReceipt rcv tk r sg s = Inl NotArbitrator"
proof -
  have "inv s" unfolding assms(1) by (rule inv_reachable)
  then have "sound (wagers s (wagerId r))"
    using assms(2) by (intro invD_sound inv_created_if_party)
  then have "\<not> isArbitrator (profile (wagers s (wagerId r))) signer"
    using assms(7) by (simp add: sound_def)
  then show ?thesis
    using assms(2-6) by (simp add: submitReceipt_def Let_def)
qed

theorem submitReceipt_outsider_NotArbitrator_witness:
  "submitReceipt first_byte_signer (erc20 True) (receipt 10 9000) [9]
     (execs first_byte_signer funded_2of3 (init_state 77)) = Inl NotArbitrator"
  by (rule submitReceipt_outsider_NotArbitrator [where ts = funded_2of3 and a = 77 and signer = 9])
     (simp_all add: run_defs sample_defs)

text \<open>
  C7, as the code has it. On an existing wager that is not resolved, a \<^verbatim>\<open>fundEscrow\<close>
  call by anyone but the named party of the side fails with \<open>NotParty\<close>, and a call by the
  named party for a side already funded fails with \<open>AlreadyFunded\<close>. Once the wager is
  resolved, every \<^verbatim>\<open>fundEscrow\<close> call fails with \<open>AlreadyResolved\<close>, which is checked
  first.
\<close>

theorem fundEscrow_rejections:
  "partyA (wagers s i) \<noteq> 0 \<longrightarrow>
     (resolved (wagers s i) \<longrightarrow> fundEscrow tk sender i side s = Inl AlreadyResolved) \<and>
     (\<not> resolved (wagers s i) \<longrightarrow>
        (sender \<noteq> (case side of A \<Rightarrow> partyA (wagers s i) | B \<Rightarrow> partyB (wagers s i))
           \<longrightarrow> fundEscrow tk sender i side s = Inl NotParty) \<and>
        (sender = (case side of A \<Rightarrow> partyA (wagers s i) | B \<Rightarrow> partyB (wagers s i)) \<and>
         (case side of A \<Rightarrow> fundedA (wagers s i) | B \<Rightarrow> fundedB (wagers s i))
           \<longrightarrow> fundEscrow tk sender i side s = Inl AlreadyFunded))"
  by (cases side) (simp_all add: fundEscrow_def Let_def)

theorem fundEscrow_rejections_witness:
  "fundEscrow (erc20 True) 10 1 A (execs first_byte_signer resolved_2of3 (init_state 77))
     = Inl AlreadyResolved \<and>
   fundEscrow (erc20 True) 11 1 A (execs first_byte_signer funded_2of3 (init_state 77))
     = Inl NotParty \<and>
   fundEscrow (erc20 True) 10 1 A (execs first_byte_signer funded_2of3 (init_state 77))
     = Inl AlreadyFunded"
  using fundEscrow_rejections
          [of "execs first_byte_signer resolved_2of3 (init_state 77)" 1 "erc20 True" 10 A]
        fundEscrow_rejections
          [of "execs first_byte_signer funded_2of3 (init_state 77)" 1 "erc20 True" 11 A]
        fundEscrow_rejections
          [of "execs first_byte_signer funded_2of3 (init_state 77)" 1 "erc20 True" 10 A]
  by (simp add: run_defs sample_defs)

theorem fundEscrow_AlreadyFunded_counterexample:
  "partyA (wagers (execs first_byte_signer resolved_2of3 (init_state 77)) 1) = 10 \<and>
   fundedA (wagers (execs first_byte_signer resolved_2of3 (init_state 77)) 1) \<and>
   fundEscrow (erc20 True) 10 1 A (execs first_byte_signer resolved_2of3 (init_state 77))
     \<noteq> Inl AlreadyFunded \<and>
   fundEscrow (erc20 True) 10 1 A (execs first_byte_signer resolved_2of3 (init_state 77))
     = Inl AlreadyResolved \<and>
   fundEscrow (erc20 True) 12 1 A (execs first_byte_signer resolved_2of3 (init_state 77))
     \<noteq> Inl NotParty \<and>
   fundedA (wagers (execs first_byte_signer funded_2of3 (init_state 77)) 1) \<and>
   fundEscrow (erc20 True) 11 1 A (execs first_byte_signer funded_2of3 (init_state 77))
     \<noteq> Inl AlreadyFunded"
  by (simp add: run_defs sample_defs)

text \<open>
  C8. The contract sets no upper bound on the confidence of a receipt, where the signer and
  the request validation of the arbitration service turn away a confidence above 10000 and
  \<^verbatim>\<open>createWager\<close> turns away such a threshold. On a funded wager with one arbitrator
  and one vote required, a receipt of that arbitrator with a confidence of 20000 is accepted,
  resolves the wager, and 20000 is stored as the winning confidence.
\<close>

theorem submitReceipt_accepts_confidence_above_10000:
  "run first_byte_signer (SubmitReceipt (receipt 10 20000) [1] True)
      (execs first_byte_signer funded_1of1 (init_state 77))
     = Inr (execs first_byte_signer (funded_1of1 @ [SubmitReceipt (receipt 10 20000) [1] True])
             (init_state 77)) \<and>
   resolved (wagers (execs first_byte_signer
      (funded_1of1 @ [SubmitReceipt (receipt 10 20000) [1] True]) (init_state 77)) 1) \<and>
   winningConfidenceBps (wagers (execs first_byte_signer
      (funded_1of1 @ [SubmitReceipt (receipt 10 20000) [1] True]) (init_state 77)) 1) = 20000 \<and>
   \<not> unat (20000 :: uint96) \<le> 10000"
  by (simp add: run_defs sample_defs)

text \<open>
  C9. \<^verbatim>\<open>attachEvidence\<close> succeeds exactly when the caller is party A or party B of the
  wager and fails with \<open>NotParty\<close> otherwise. Nothing else is checked: the statement holds
  in every state, funded or not, resolved or not. A successful call stores the new root and
  locator (so the last call wins), changes no other field of the wager, no other wager and
  no token balance, and emits one event.
\<close>

theorem attachEvidence_parties_only:
  "(sender = partyA (wagers s i) \<or> sender = partyB (wagers s i) \<longrightarrow>
      (\<exists>s'. attachEvidence sender i root uri s = Inr s' \<and>
            evidenceRoot (wagers s' i) = root \<and> evidenceURI (wagers s' i) = uri \<and>
            (wagers s' i)\<lparr>evidenceRoot := evidenceRoot (wagers s i),
                           evidenceURI := evidenceURI (wagers s i)\<rparr> = wagers s i \<and>
            (\<forall>j. j \<noteq> i \<longrightarrow> wagers s' j = wagers s j) \<and>
            nextWagerId s' = nextWagerId s \<and> calls s' = calls s \<and>
            events s' = events s @ [EvidenceAttached i root uri])) \<and>
   (sender \<noteq> partyA (wagers s i) \<and> sender \<noteq> partyB (wagers s i) \<longrightarrow>
      attachEvidence sender i root uri s = Inl NotParty)"
  by (simp add: attachEvidence_def Let_def)

theorem attachEvidence_parties_only_witness:
  "resolved (wagers (execs first_byte_signer resolved_2of3 (init_state 77)) 1) \<and>
   (\<exists>s'. attachEvidence 11 1 5 ''ipfs://b''
            (execs first_byte_signer resolved_2of3 (init_state 77)) = Inr s' \<and>
         evidenceRoot (wagers s' 1) = 5 \<and> evidenceURI (wagers s' 1) = ''ipfs://b'') \<and>
   attachEvidence 12 1 5 ''ipfs://b''
     (execs first_byte_signer resolved_2of3 (init_state 77)) = Inl NotParty"
  using attachEvidence_parties_only
          [of 11 "execs first_byte_signer resolved_2of3 (init_state 77)" 1 5 "''ipfs://b''"]
        attachEvidence_parties_only
          [of 12 "execs first_byte_signer resolved_2of3 (init_state 77)" 1 5 "''ipfs://b''"]
  by (simp add: run_defs sample_defs)

text \<open>
  C10. \<^verbatim>\<open>attachEvidence\<close> has no existence check. Under an id no wager was created
  for, both parties are the zero address, so every caller other than the zero address is
  turned away with \<open>NotParty\<close> and the state stays as it was, where \<^verbatim>\<open>fundEscrow\<close> and
  \<^verbatim>\<open>submitReceipt\<close> answer \<open>InvalidParams\<close>.
\<close>

theorem attachEvidence_unknown_id_NotParty:
  assumes "s = execs rcv ts (init_state a)"
    and "\<not> created s i" and "sender \<noteq> 0"
  shows "attachEvidence sender i root uri s = Inl NotParty \<and>
         exec rcv (AttachEvidence sender i root uri) s = s \<and>
         fundEscrow tk sender i side s = Inl InvalidParams \<and>
         (wagerId r = i \<longrightarrow> submitReceipt rcv tk r sg s = Inl InvalidParams)"
proof -
  have "inv s" unfolding assms(1) by (rule inv_reachable)
  then have "fresh (wagers s i)" using assms(2) by (rule invD_fresh)
  then have z: "partyA (wagers s i) = 0" "partyB (wagers s i) = 0"
    by (simp_all add: fresh_def)
  show ?thesis
    using z assms(3)
    by (auto simp: attachEvidence_def exec_def fundEscrow_def submitReceipt_def Let_def)
qed

theorem attachEvidence_unknown_id_NotParty_witness:
  "attachEvidence 10 2 5 ''ipfs://b'' (execs first_byte_signer funded_2of3 (init_state 77))
     = Inl NotParty \<and>
   exec first_byte_signer (AttachEvidence 10 2 5 ''ipfs://b'')
     (execs first_byte_signer funded_2of3 (init_state 77))
     = execs first_byte_signer funded_2of3 (init_state 77) \<and>
   fundEscrow (erc20 True) 10 2 A (execs first_byte_signer funded_2of3 (init_state 77))
     = Inl InvalidParams"
proof -
  have c: "\<not> created (execs first_byte_signer funded_2of3 (init_state 77)) 2"
    by (simp add: run_defs sample_defs)
  show ?thesis
    using attachEvidence_unknown_id_NotParty
      [OF refl c, of 10 5 "''ipfs://b''" "erc20 True" A "receipt 10 9000" "[1]"]
    by simp
qed

end
